theory Spec2Isabelle
  imports Main "HOL-Library.Sublist"
begin

section \<open>Python values, dictionaries and exceptions\<close>

text \<open>
  The service handles JSON data: the rows the record store returns are Python dictionaries
  whose values are integers, strings or \<open>None\<close>. A dictionary is an association list
  (first binding of a key wins); \<open>d.get(k, default)\<close> and \<open>d[k]\<close> are the two
  lookups the source uses, the second raising \<open>KeyError\<close> on a missing key.
\<close>

datatype pyval = PNone | PStr string | PInt int

type_synonym dict = "(string \<times> pyval) list"

datatype exn =
    HTTPException int string
  | IndexError
  | KeyError string
  | ValidationError string
  | ServiceError string

definition digit_char :: "nat \<Rightarrow> char" where
  "digit_char d = ''0123456789'' ! d"

function str_nat :: "nat \<Rightarrow> string" where
  "str_nat n = (if n < 10 then [digit_char n] else str_nat (n div 10) @ [digit_char (n mod 10)])"
  by pat_completeness auto
termination
  by (relation "measure (\<lambda>n. n)") auto

declare str_nat.simps [simp del]

definition str_int :: "int \<Rightarrow> string" where
  "str_int i = (if i < 0 then CHR ''-'' # str_nat (nat (- i)) else str_nat (nat i))"

text \<open>\<open>str(v)\<close>, as an f-string renders a value: \<open>None\<close> is rendered as the text None.\<close>

fun str_pyval :: "pyval \<Rightarrow> string" where
  "str_pyval PNone = ''None''"
| "str_pyval (PStr s) = s"
| "str_pyval (PInt i) = str_int i"

text \<open>
  \<open>str(e)\<close> of an exception. A failure of an external client carries its own message.
  The framework's \<open>HTTPException\<close> renders as status code and detail.
\<close>

fun str_exn :: "exn \<Rightarrow> string" where
  "str_exn (HTTPException status detail) = str_int status @ '': '' @ detail"
| "str_exn IndexError = ''list index out of range''"
| "str_exn (KeyError k) = [CHR 0x27] @ k @ [CHR 0x27]"
| "str_exn (ValidationError m) = m"
| "str_exn (ServiceError m) = m"

definition dict_get :: "dict \<Rightarrow> string \<Rightarrow> pyval \<Rightarrow> pyval" where
  "dict_get d k dflt = (case map_of d k of None \<Rightarrow> dflt | Some v \<Rightarrow> v)"

definition dict_item :: "dict \<Rightarrow> string \<Rightarrow> exn + pyval" where
  "dict_item d k = (case map_of d k of None \<Rightarrow> Inl (KeyError k) | Some v \<Rightarrow> Inr v)"

section \<open>Data model\<close>

record SWOTAnalysis =
  strengths :: string
  weaknesses :: string
  opportunities :: string
  threats :: string

datatype CompetitorResponse = CompetitorResponse
  (resp_id: int)
  (resp_competitor_name: string)
  (resp_competitor_strength: "string option")
  (resp_competitor_weakness: "string option")
  (resp_competitor_opportunity: "string option")
  (resp_competitor_threats: "string option")

text \<open>
  Modelled from the spec: the schema of the table \<open>competitors\<close>, which lives in the
  external record store and is declared nowhere in the source. Section 3 and section 6 of
  the specification give its ten columns: an integer key, a required name, four optional
  descriptive texts and four optional output texts. The key column is called \<open>row_id\<close>
  here, since \<open>id\<close> is the identity function of HOL.
\<close>

record competitor_row =
  row_id :: int
  competitor_name :: string
  program_summary :: "string option"
  competitor_positioning :: "string option"
  competitor_rewards_benefits :: "string option"
  competitor_user_feedback :: "string option"
  competitor_strength :: "string option"
  competitor_weakness :: "string option"
  competitor_opportunity :: "string option"
  competitor_threats :: "string option"

fun text_val :: "string option \<Rightarrow> pyval" where
  "text_val None = PNone"
| "text_val (Some s) = PStr s"

text \<open>The dictionary the store returns for a row under the column list of the two selects.\<close>

definition selected_columns :: "competitor_row \<Rightarrow> dict" where
  "selected_columns r =
    [(''id'', PInt (row_id r)),
     (''competitor_name'', PStr (competitor_name r)),
     (''program_summary'', text_val (program_summary r)),
     (''competitor_positioning'', text_val (competitor_positioning r)),
     (''competitor_rewards_benefits'', text_val (competitor_rewards_benefits r)),
     (''competitor_user_feedback'', text_val (competitor_user_feedback r))]"

text \<open>The dictionary the store returns for an updated row: all of its columns.\<close>

definition all_columns :: "competitor_row \<Rightarrow> dict" where
  "all_columns r =
    selected_columns r @
    [(''competitor_strength'', text_val (competitor_strength r)),
     (''competitor_weakness'', text_val (competitor_weakness r)),
     (''competitor_opportunity'', text_val (competitor_opportunity r)),
     (''competitor_threats'', text_val (competitor_threats r))]"

section \<open>The world: record store, LLM service and log\<close>

text \<open>
  The two external clients and the logger are the state the code runs against.
  \<^item> \<open>table\<close> is the content of the table, in the store's order.
  \<^item> \<open>llm k prompt\<close> is what the completion service answers to request number \<open>k\<close>
    (counted from 0) carrying that user prompt: a parsed result or a failure. The service
    is not deterministic, hence the request number.
  \<^item> \<open>store_fault k\<close> is the failure, if any, of round trip number \<open>k\<close> to the store.
  \<^item> \<open>llm_calls\<close>, \<open>store_ops\<close> and \<open>writes\<close> record what was sent: the prompts, the
    number of round trips, and every update request (its id filter and its payload).
  \<^item> \<open>log\<close> holds the lines given to the logger.
\<close>

datatype level = INFO | ERROR

record world =
  table :: "competitor_row list"
  llm :: "nat \<Rightarrow> string \<Rightarrow> exn + SWOTAnalysis"
  store_fault :: "nat \<Rightarrow> exn option"
  llm_calls :: "string list"
  store_ops :: nat
  writes :: "(pyval \<times> dict) list"
  log :: "(level \<times> string) list"

definition logger_info :: "string \<Rightarrow> world \<Rightarrow> world" where
  "logger_info msg w = w\<lparr>log := log w @ [(INFO, msg)]\<rparr>"

definition logger_error :: "string \<Rightarrow> world \<Rightarrow> world" where
  "logger_error msg w = w\<lparr>log := log w @ [(ERROR, msg)]\<rparr>"

subsection \<open>Record store client\<close>

text \<open>\<open>select(...).eq('id', competitor_id).execute()\<close>\<close>

definition select_eq_id :: "int \<Rightarrow> world \<Rightarrow> (exn + dict list) \<times> world" where
  "select_eq_id competitor_id w =
    (let w1 = w\<lparr>store_ops := Suc (store_ops w)\<rparr> in
     case store_fault w (store_ops w) of
       Some e \<Rightarrow> (Inl e, w1)
     | None \<Rightarrow>
         (Inr (map selected_columns (filter (\<lambda>r. row_id r = competitor_id) (table w))), w1))"

text \<open>\<open>select(...).is_('competitor_strength', 'null').execute()\<close>\<close>

definition select_strength_null :: "world \<Rightarrow> (exn + dict list) \<times> world" where
  "select_strength_null w =
    (let w1 = w\<lparr>store_ops := Suc (store_ops w)\<rparr> in
     case store_fault w (store_ops w) of
       Some e \<Rightarrow> (Inl e, w1)
     | None \<Rightarrow>
         (Inr (map selected_columns (filter (\<lambda>r. competitor_strength r = None) (table w))), w1))"

text \<open>
  An update request names columns freely; the store sets each named column of a row, and
  rejects a column it does not have or a value of the wrong type.
\<close>

fun as_text :: "pyval \<Rightarrow> string option option" where
  "as_text PNone = Some None"
| "as_text (PStr s) = Some (Some s)"
| "as_text (PInt i) = None"

definition set_column :: "competitor_row \<Rightarrow> string \<times> pyval \<Rightarrow> competitor_row option" where
  "set_column r kv =
    (let k = fst kv; v = snd kv in
     if k = ''id'' then (case v of PInt i \<Rightarrow> Some (r\<lparr>row_id := i\<rparr>) | _ \<Rightarrow> None)
     else if k = ''competitor_name'' then
       (case v of PStr s \<Rightarrow> Some (r\<lparr>competitor_name := s\<rparr>) | _ \<Rightarrow> None)
     else if k = ''program_summary'' then
       map_option (\<lambda>t. r\<lparr>program_summary := t\<rparr>) (as_text v)
     else if k = ''competitor_positioning'' then
       map_option (\<lambda>t. r\<lparr>competitor_positioning := t\<rparr>) (as_text v)
     else if k = ''competitor_rewards_benefits'' then
       map_option (\<lambda>t. r\<lparr>competitor_rewards_benefits := t\<rparr>) (as_text v)
     else if k = ''competitor_user_feedback'' then
       map_option (\<lambda>t. r\<lparr>competitor_user_feedback := t\<rparr>) (as_text v)
     else if k = ''competitor_strength'' then
       map_option (\<lambda>t. r\<lparr>competitor_strength := t\<rparr>) (as_text v)
     else if k = ''competitor_weakness'' then
       map_option (\<lambda>t. r\<lparr>competitor_weakness := t\<rparr>) (as_text v)
     else if k = ''competitor_opportunity'' then
       map_option (\<lambda>t. r\<lparr>competitor_opportunity := t\<rparr>) (as_text v)
     else if k = ''competitor_threats'' then
       map_option (\<lambda>t. r\<lparr>competitor_threats := t\<rparr>) (as_text v)
     else None)"

fun apply_payload :: "dict \<Rightarrow> competitor_row \<Rightarrow> competitor_row option" where
  "apply_payload [] r = Some r"
| "apply_payload (kv # kvs) r =
    (case set_column r kv of None \<Rightarrow> None | Some r' \<Rightarrow> apply_payload kvs r')"

text \<open>
  One row of the table under an update request: whether the filter selected it, and the
  row afterwards.
\<close>

definition update_row :: "dict \<Rightarrow> pyval \<Rightarrow> competitor_row \<Rightarrow> (bool \<times> competitor_row) option" where
  "update_row payload competitor_id r =
    (if PInt (row_id r) = competitor_id
     then map_option (\<lambda>r'. (True, r')) (apply_payload payload r)
     else Some (False, r))"

text \<open>
  \<open>update(payload).eq('id', competitor_id).execute()\<close>: the response holds the updated
  rows, as they are after the update.
\<close>

definition store_update :: "dict \<Rightarrow> pyval \<Rightarrow> world \<Rightarrow> (exn + dict list) \<times> world" where
  "store_update payload competitor_id w =
    (let w1 = w\<lparr>store_ops := Suc (store_ops w),
                writes := writes w @ [(competitor_id, payload)]\<rparr> in
     case store_fault w (store_ops w) of
       Some e \<Rightarrow> (Inl e, w1)
     | None \<Rightarrow>
         (case those (map (update_row payload competitor_id) (table w)) of
            None \<Rightarrow> (Inl (ServiceError ''update rejected''), w1)
          | Some marked \<Rightarrow>
              (Inr (map (all_columns \<circ> snd) (filter fst marked)),
               w1\<lparr>table := map snd marked\<rparr>)))"

section \<open>The service\<close>

subsection \<open>\<open>get_swot_analysis\<close>\<close>

text \<open>
  The f-string of \<open>get_swot_analysis\<close>, with the line breaks and indentation it has.
  \<open>existing_data.get(key, 'N/A')\<close> is \<open>dict_get\<close>: the default stands for a missing key only.
\<close>

definition prompt :: "pyval \<Rightarrow> dict \<Rightarrow> string" where
  "prompt name existing_data =
    ''Perform a detailed SWOT analysis of '' @ str_pyval name @ [CHR 0x27] @
    ''s loyalty program based on this existing data:'' @ [CHR 0x0A, CHR 0x0A] @
    ''   Program Summary: '' @
      str_pyval (dict_get existing_data ''program_summary'' (PStr ''N/A'')) @ [CHR 0x0A] @
    ''   Market Positioning: '' @
      str_pyval (dict_get existing_data ''competitor_positioning'' (PStr ''N/A'')) @ [CHR 0x0A] @
    ''   Rewards and Benefits: '' @
      str_pyval (dict_get existing_data ''competitor_rewards_benefits'' (PStr ''N/A'')) @ [CHR 0x0A] @
    ''   User Feedback: '' @
      str_pyval (dict_get existing_data ''competitor_user_feedback'' (PStr ''N/A'')) @
      [CHR 0x0A, CHR 0x0A] @
    ''   Provide a comprehensive SWOT analysis with each component in 3 bullet points.''"

text \<open>
  The request to the completion service carries the prompt; the service answers with the
  parsed analysis or the client raises. The answer is that of the world's \<open>llm\<close> for the
  number of requests sent so far.
\<close>

definition get_swot_analysis :: "pyval \<Rightarrow> dict \<Rightarrow> world \<Rightarrow> (exn + SWOTAnalysis) \<times> world" where
  "get_swot_analysis name existing_data w =
    (let w1 = logger_info (''Performing SWOT analysis for '' @ str_pyval name) w;
         p = prompt name existing_data
     in (llm w1 (length (llm_calls w1)) p, w1\<lparr>llm_calls := llm_calls w1 @ [p]\<rparr>))"

subsection \<open>\<open>update_competitor_swot\<close>\<close>

definition swot_payload :: "SWOTAnalysis \<Rightarrow> dict" where
  "swot_payload swot =
    [(''competitor_strength'', PStr (strengths swot)),
     (''competitor_weakness'', PStr (weaknesses swot)),
     (''competitor_opportunity'', PStr (opportunities swot)),
     (''competitor_threats'', PStr (threats swot))]"

text \<open>
  \<open>CompetitorResponse(**updated_competitor)\<close>: the model's six fields are read from the
  dictionary and checked against their types; other keys are ignored.
\<close>

definition optional_str :: "dict \<Rightarrow> string \<Rightarrow> exn + string option" where
  "optional_str d k =
    (case map_of d k of
       Some (PStr s) \<Rightarrow> Inr (Some s)
     | Some PNone \<Rightarrow> Inr None
     | _ \<Rightarrow> Inl (ValidationError k))"

definition make_CompetitorResponse :: "dict \<Rightarrow> exn + CompetitorResponse" where
  "make_CompetitorResponse d =
    (case map_of d ''id'' of
       Some (PInt i) \<Rightarrow>
         (case map_of d ''competitor_name'' of
            Some (PStr n) \<Rightarrow>
              (case optional_str d ''competitor_strength'' of Inl e \<Rightarrow> Inl e | Inr s \<Rightarrow>
              (case optional_str d ''competitor_weakness'' of Inl e \<Rightarrow> Inl e | Inr wk \<Rightarrow>
              (case optional_str d ''competitor_opportunity'' of Inl e \<Rightarrow> Inl e | Inr opp \<Rightarrow>
              (case optional_str d ''competitor_threats'' of Inl e \<Rightarrow> Inl e | Inr th \<Rightarrow>
                 Inr (CompetitorResponse i n s wk opp th)))))
          | _ \<Rightarrow> Inl (ValidationError ''competitor_name''))
     | _ \<Rightarrow> Inl (ValidationError ''id''))"

text \<open>The body of the \<open>try\<close> block of \<open>update_competitor_swot\<close>.\<close>

definition update_competitor_swot_try ::
    "pyval \<Rightarrow> pyval \<Rightarrow> dict \<Rightarrow> world \<Rightarrow> (exn + CompetitorResponse) \<times> world" where
  "update_competitor_swot_try competitor_id name existing_data w =
    (case get_swot_analysis name existing_data w of
       (Inl e, w1) \<Rightarrow> (Inl e, w1)
     | (Inr swot, w1) \<Rightarrow>
         (case store_update (swot_payload swot) competitor_id w1 of
            (Inl e, w2) \<Rightarrow> (Inl e, w2)
          | (Inr data, w2) \<Rightarrow>
              (case data of
                 [] \<Rightarrow> (Inl IndexError, w2)
               | updated_competitor # _ \<Rightarrow>
                   (let w3 = logger_info
                          (''Successfully updated SWOT analysis for '' @ str_pyval name) w2
                    in (make_CompetitorResponse updated_competitor, w3)))))"

definition update_competitor_swot ::
    "pyval \<Rightarrow> pyval \<Rightarrow> dict \<Rightarrow> world \<Rightarrow> (exn + CompetitorResponse) \<times> world" where
  "update_competitor_swot competitor_id name existing_data w =
    (let w0 = logger_info
           (''Updating SWOT analysis for competitor ID '' @ str_pyval competitor_id @ '': '' @
            str_pyval name) w
     in case update_competitor_swot_try competitor_id name existing_data w0 of
          (Inr r, w1) \<Rightarrow> (Inr r, w1)
        | (Inl e, w1) \<Rightarrow>
            (Inl e, logger_error
               (''Error processing '' @ str_pyval name @ '': '' @ str_exn e) w1))"

subsection \<open>The HTTP surface\<close>

text \<open>
  An endpoint returns a body or raises. The framework answers a returned body with
  status 200, a raised \<open>HTTPException\<close> with its status code, any other exception with 500.
\<close>

fun http_status :: "exn + 'a \<Rightarrow> int" where
  "http_status (Inr body) = 200"
| "http_status (Inl (HTTPException status detail)) = status"
| "http_status (Inl e) = 500"

definition root :: "world \<Rightarrow> (exn + string) \<times> world" where
  "root w = (Inr ''API is running'', logger_info ''Health check endpoint called'' w)"

definition update_single_competitor_try ::
    "int \<Rightarrow> world \<Rightarrow> (exn + CompetitorResponse) \<times> world" where
  "update_single_competitor_try competitor_id w =
    (let w0 = logger_info
           (''Received request to update competitor ID: '' @ str_int competitor_id) w
     in case select_eq_id competitor_id w0 of
          (Inl e, w1) \<Rightarrow> (Inl e, w1)
        | (Inr data, w1) \<Rightarrow>
            (case data of
               [] \<Rightarrow>
                 (Inl (HTTPException 404 ''Competitor not found''),
                  logger_error (''No competitor found with ID '' @ str_int competitor_id) w1)
             | competitor # _ \<Rightarrow>
                 (case dict_item competitor ''competitor_name'' of
                    Inl e \<Rightarrow> (Inl e, w1)
                  | Inr name \<Rightarrow>
                      update_competitor_swot (PInt competitor_id) name competitor w1)))"

definition update_single_competitor ::
    "int \<Rightarrow> world \<Rightarrow> (exn + CompetitorResponse) \<times> world" where
  "update_single_competitor competitor_id w =
    (case update_single_competitor_try competitor_id w of
       (Inr r, w1) \<Rightarrow> (Inr r, w1)
     | (Inl e, w1) \<Rightarrow>
         (Inl (HTTPException 500 (str_exn e)),
          logger_error (''Error processing request: '' @ str_exn e) w1))"

text \<open>
  The two bodies \<open>update_all_competitors\<close> returns: a status alone, or a status with
  \<open>total_processed\<close> and \<open>updated_competitors\<close>.
\<close>

datatype batch_body =
    StatusOnly string
  | Summary string nat "CompetitorResponse list"

text \<open>The \<open>try\<close> block inside the loop, up to the call of the updater.\<close>

definition update_item :: "dict \<Rightarrow> world \<Rightarrow> (exn + CompetitorResponse) \<times> world" where
  "update_item competitor w =
    (case dict_item competitor ''id'' of
       Inl e \<Rightarrow> (Inl e, w)
     | Inr cid \<Rightarrow>
         (case dict_item competitor ''competitor_name'' of
            Inl e \<Rightarrow> (Inl e, w)
          | Inr name \<Rightarrow> update_competitor_swot cid name competitor w))"

text \<open>
  The \<open>except\<close> clause inside the loop: it logs and lets the loop go on; the lookup in
  its f-string raises out of the loop if the key is missing.
\<close>

definition item_failed :: "dict \<Rightarrow> exn \<Rightarrow> world \<Rightarrow> (exn + unit) \<times> world" where
  "item_failed competitor e w =
    (case dict_item competitor ''competitor_name'' of
       Inl e' \<Rightarrow> (Inl e', w)
     | Inr name \<Rightarrow>
         (Inr (), logger_error (''Error processing '' @ str_pyval name @ '': '' @ str_exn e) w))"

fun update_all_loop ::
    "dict list \<Rightarrow> CompetitorResponse list \<Rightarrow> world \<Rightarrow> (exn + CompetitorResponse list) \<times> world" where
  "update_all_loop [] updated_competitors w = (Inr updated_competitors, w)"
| "update_all_loop (competitor # rest) updated_competitors w =
    (case update_item competitor w of
       (Inr updated, w1) \<Rightarrow>
         (case dict_item competitor ''competitor_name'' of
            Inr name \<Rightarrow>
              update_all_loop rest (updated_competitors @ [updated])
                (logger_info (''Successfully processed '' @ str_pyval name) w1)
          | Inl e \<Rightarrow>
              (case item_failed competitor e w1 of
                 (Inl e', w2) \<Rightarrow> (Inl e', w2)
               | (Inr u, w2) \<Rightarrow> update_all_loop rest (updated_competitors @ [updated]) w2))
     | (Inl e, w1) \<Rightarrow>
         (case item_failed competitor e w1 of
            (Inl e', w2) \<Rightarrow> (Inl e', w2)
          | (Inr u, w2) \<Rightarrow> update_all_loop rest updated_competitors w2))"

definition update_all_competitors_try :: "world \<Rightarrow> (exn + batch_body) \<times> world" where
  "update_all_competitors_try w =
    (let w0 = logger_info ''Starting batch update of all competitors'' w
     in case select_strength_null w0 of
          (Inl e, w1) \<Rightarrow> (Inl e, w1)
        | (Inr data, w1) \<Rightarrow>
            (if data = [] then
               (Inr (StatusOnly ''No competitors found needing updates''),
                logger_info ''No competitors found needing SWOT analysis'' w1)
             else
               (let w2 = logger_info
                      (''Found '' @ str_nat (length data) @ '' competitors to process'') w1
                in case update_all_loop data [] w2 of
                     (Inl e, w3) \<Rightarrow> (Inl e, w3)
                   | (Inr updated_competitors, w3) \<Rightarrow>
                       (Inr (Summary ''success'' (length updated_competitors) updated_competitors),
                        w3))))"

definition update_all_competitors :: "world \<Rightarrow> (exn + batch_body) \<times> world" where
  "update_all_competitors w =
    (case update_all_competitors_try w of
       (Inr body, w1) \<Rightarrow> (Inr body, w1)
     | (Inl e, w1) \<Rightarrow>
         (Inl (HTTPException 500 (str_exn e)),
          logger_error (''Error in batch update: '' @ str_exn e) w1))"

section \<open>Auxiliary definitions for the properties\<close>

text \<open>A row after its four output columns were overwritten with an analysis.\<close>

definition with_swot :: "SWOTAnalysis \<Rightarrow> competitor_row \<Rightarrow> competitor_row" where
  "with_swot swot r =
    r\<lparr>competitor_strength := Some (strengths swot),
      competitor_weakness := Some (weaknesses swot),
      competitor_opportunity := Some (opportunities swot),
      competitor_threats := Some (threats swot)\<rparr>"

text \<open>The response model built from a row of the table.\<close>

definition response_of_row :: "competitor_row \<Rightarrow> CompetitorResponse" where
  "response_of_row r =
    CompetitorResponse (row_id r) (competitor_name r) (competitor_strength r)
      (competitor_weakness r) (competitor_opportunity r) (competitor_threats r)"

text \<open>What an update carrying an analysis and filtered by id does to one row.\<close>

definition write_to :: "pyval \<Rightarrow> SWOTAnalysis \<Rightarrow> competitor_row \<Rightarrow> competitor_row" where
  "write_to cid swot r = (if PInt (row_id r) = cid then with_swot swot r else r)"

text \<open>The log lines of \<open>update_competitor_swot\<close> and \<open>get_swot_analysis\<close>.\<close>

definition log_updating :: "pyval \<Rightarrow> pyval \<Rightarrow> level \<times> string" where
  "log_updating cid name =
    (INFO, ''Updating SWOT analysis for competitor ID '' @ str_pyval cid @ '': '' @ str_pyval name)"

definition log_performing :: "pyval \<Rightarrow> level \<times> string" where
  "log_performing name = (INFO, ''Performing SWOT analysis for '' @ str_pyval name)"

definition log_error_processing :: "pyval \<Rightarrow> exn \<Rightarrow> level \<times> string" where
  "log_error_processing name e =
    (ERROR, ''Error processing '' @ str_pyval name @ '': '' @ str_exn e)"

text \<open>The columns of a row that this service only reads: key, name and descriptive texts.\<close>

definition descriptive ::
    "competitor_row \<Rightarrow> int \<times> string \<times> string option \<times> string option \<times> string option \<times> string option" where
  "descriptive r =
    (row_id r, competitor_name r, program_summary r, competitor_positioning r,
     competitor_rewards_benefits r, competitor_user_feedback r)"

text \<open>The names of the four output columns.\<close>

definition output_columns :: "string list" where
  "output_columns =
    [''competitor_strength'', ''competitor_weakness'', ''competitor_opportunity'',
     ''competitor_threats'']"

text \<open>The prompt the batch builds for a row of the table.\<close>

definition prompt_of_row :: "competitor_row \<Rightarrow> string" where
  "prompt_of_row r = prompt (PStr (competitor_name r)) (selected_columns r)"

text \<open>The rows the batch query selects, and the world in which the loop of the batch starts.\<close>

definition unanalysed :: "world \<Rightarrow> competitor_row list" where
  "unanalysed w = filter (\<lambda>r. competitor_strength r = None) (table w)"

definition loop_start :: "world \<Rightarrow> world" where
  "loop_start w =
    logger_info (''Found '' @ str_nat (length (unanalysed w)) @ '' competitors to process'')
      ((logger_info ''Starting batch update of all competitors'' w)
         \<lparr>store_ops := Suc (store_ops w)\<rparr>)"

text \<open>
  \<open>evolves I w w'\<close>: from \<open>w\<close> to \<open>w'\<close> the external services are the same, no row changed
  its key, name or descriptive texts, rows whose key is outside \<open>I\<close> are untouched, and every
  new update request is filtered by a key in \<open>I\<close> and carries the four output columns only.
\<close>

definition evolves :: "pyval set \<Rightarrow> world \<Rightarrow> world \<Rightarrow> bool" where
  "evolves I w w' \<longleftrightarrow>
    llm w' = llm w \<and> store_fault w' = store_fault w \<and>
    map descriptive (table w') = map descriptive (table w) \<and>
    (\<forall>i<length (table w). PInt (row_id (table w ! i)) \<notin> I \<longrightarrow> table w' ! i = table w ! i) \<and>
    (\<exists>new. writes w' = writes w @ new \<and>
       (\<forall>u\<in>set new. fst u \<in> I \<and> map fst (snd u) = output_columns)) \<and>
    store_ops w \<le> store_ops w'"

text \<open>
  The rows of a batch whose LLM request succeeds, when the first request of the batch has
  number \<open>c\<close>: every row of the batch makes exactly one request.
\<close>

fun succ_rows ::
    "(nat \<Rightarrow> string \<Rightarrow> exn + SWOTAnalysis) \<Rightarrow> nat \<Rightarrow> competitor_row list \<Rightarrow> competitor_row list" where
  "succ_rows f c [] = []"
| "succ_rows f c (r # rs) =
    (if isl (f c (prompt_of_row r)) then succ_rows f (Suc c) rs
     else r # succ_rows f (Suc c) rs)"

text \<open>
  Sample data: the competitor of the scenario in the specification (id 7, name Acme, every
  descriptive and output field null), a competitor that is analysed already, a third one
  that is not, and an analysis. In \<open>test_world\<close> the store never fails and the LLM answers
  request number \<open>k\<close> with \<open>answers k\<close>; in \<open>one_failure\<close> its request number 1 fails, in
  \<open>all_failures\<close> every request fails.
\<close>

definition acme :: competitor_row where
  "acme = \<lparr>row_id = 7, competitor_name = ''Acme'',
     program_summary = None, competitor_positioning = None,
     competitor_rewards_benefits = None, competitor_user_feedback = None,
     competitor_strength = None, competitor_weakness = None,
     competitor_opportunity = None, competitor_threats = None\<rparr>"

definition globex :: competitor_row where
  "globex = \<lparr>row_id = 8, competitor_name = ''Globex'',
     program_summary = Some ''Points per purchase'', competitor_positioning = None,
     competitor_rewards_benefits = None, competitor_user_feedback = None,
     competitor_strength = Some ''Large base'', competitor_weakness = Some ''Slow'',
     competitor_opportunity = Some ''Mobile'', competitor_threats = Some ''Churn''\<rparr>"

definition initech :: competitor_row where
  "initech = \<lparr>row_id = 9, competitor_name = ''Initech'',
     program_summary = None, competitor_positioning = Some ''Premium'',
     competitor_rewards_benefits = None, competitor_user_feedback = None,
     competitor_strength = None, competitor_weakness = None,
     competitor_opportunity = None, competitor_threats = None\<rparr>"

definition sample_swot :: SWOTAnalysis where
  "sample_swot = \<lparr>strengths = ''S'', weaknesses = ''W'', opportunities = ''O'', threats = ''T''\<rparr>"

definition test_world :: "competitor_row list \<Rightarrow> (nat \<Rightarrow> exn + SWOTAnalysis) \<Rightarrow> world" where
  "test_world t answers =
    \<lparr>table = t, llm = (\<lambda>k p. answers k), store_fault = (\<lambda>k. None),
     llm_calls = [], store_ops = 0, writes = [], log = []\<rparr>"

definition one_failure :: world where
  "one_failure =
    test_world [acme, globex, initech]
      (\<lambda>k. if k = 1 then Inl (ServiceError ''rate limit'') else Inr sample_swot)"

definition all_failures :: world where
  "all_failures =
    test_world [acme, globex, initech] (\<lambda>k. Inl (ServiceError ''rate limit''))"

section \<open>Properties\<close>

subsection \<open>Logger, store client and response model\<close>

lemma logger_info_fields [simp]:
  "table (logger_info m w) = table w"
  "llm (logger_info m w) = llm w"
  "store_fault (logger_info m w) = store_fault w"
  "llm_calls (logger_info m w) = llm_calls w"
  "store_ops (logger_info m w) = store_ops w"
  "writes (logger_info m w) = writes w"
  "log (logger_info m w) = log w @ [(INFO, m)]"
  by (simp_all add: logger_info_def)

lemma logger_error_fields [simp]:
  "table (logger_error m w) = table w"
  "llm (logger_error m w) = llm w"
  "store_fault (logger_error m w) = store_fault w"
  "llm_calls (logger_error m w) = llm_calls w"
  "store_ops (logger_error m w) = store_ops w"
  "writes (logger_error m w) = writes w"
  "log (logger_error m w) = log w @ [(ERROR, m)]"
  by (simp_all add: logger_error_def)

lemma apply_swot_payload: "apply_payload (swot_payload swot) r = Some (with_swot swot r)"
  by (simp add: swot_payload_def set_column_def with_swot_def)

lemma those_map_Some: "those (map (\<lambda>x. Some (f x)) xs) = Some (map f xs)"
  by (induction xs) simp_all

lemma update_row_swot:
  "update_row (swot_payload swot) cid =
    (\<lambda>r. Some (PInt (row_id r) = cid, write_to cid swot r))"
  by (rule ext) (simp add: update_row_def apply_swot_payload write_to_def)

lemma make_response_all_columns:
  "make_CompetitorResponse (all_columns r) = Inr (response_of_row r)"
  by (cases "competitor_strength r"; cases "competitor_weakness r";
      cases "competitor_opportunity r"; cases "competitor_threats r")
     (simp_all add: make_CompetitorResponse_def all_columns_def selected_columns_def
        optional_str_def response_of_row_def)

lemma updated_rows_marked:
  "map (all_columns \<circ> snd)
     (filter fst (map (\<lambda>r. (PInt (row_id r) = cid, write_to cid swot r)) t))
   = map (all_columns \<circ> with_swot swot) (filter (\<lambda>r. PInt (row_id r) = cid) t)"
  by (induction t) (simp_all add: write_to_def)

lemma store_update_swot:
  "store_update (swot_payload swot) cid w =
    (case store_fault w (store_ops w) of
       Some e \<Rightarrow>
         (Inl e, w\<lparr>store_ops := Suc (store_ops w),
                    writes := writes w @ [(cid, swot_payload swot)]\<rparr>)
     | None \<Rightarrow>
         (Inr (map (all_columns \<circ> with_swot swot) (filter (\<lambda>r. PInt (row_id r) = cid) (table w))),
          w\<lparr>store_ops := Suc (store_ops w),
            writes := writes w @ [(cid, swot_payload swot)],
            table := map (write_to cid swot) (table w)\<rparr>))"
  by (simp add: store_update_def Let_def update_row_swot those_map_Some updated_rows_marked
        split: option.splits)

lemma dict_item_selected [simp]:
  "dict_item (selected_columns r) ''id'' = Inr (PInt (row_id r))"
  "dict_item (selected_columns r) ''competitor_name'' = Inr (PStr (competitor_name r))"
  by (simp_all add: dict_item_def selected_columns_def)

subsection \<open>The updater, case by case\<close>

lemma ucs_llm_fails:
  assumes "llm w (length (llm_calls w)) (prompt name d) = Inl e"
  shows "update_competitor_swot cid name d w =
    (Inl e, w\<lparr>llm_calls := llm_calls w @ [prompt name d],
               log := log w @ [log_updating cid name, log_performing name,
                               log_error_processing name e]\<rparr>)"
  using assms
  by (simp add: update_competitor_swot_def update_competitor_swot_try_def
        get_swot_analysis_def Let_def logger_info_def logger_error_def
        log_updating_def log_performing_def log_error_processing_def)

lemma ucs_store_fault:
  assumes "llm w (length (llm_calls w)) (prompt name d) = Inr swot"
    and "store_fault w (store_ops w) = Some e"
  shows "update_competitor_swot cid name d w =
    (Inl e, w\<lparr>llm_calls := llm_calls w @ [prompt name d],
               store_ops := Suc (store_ops w),
               writes := writes w @ [(cid, swot_payload swot)],
               log := log w @ [log_updating cid name, log_performing name,
                               log_error_processing name e]\<rparr>)"
  using assms
  by (simp add: update_competitor_swot_def update_competitor_swot_try_def
        get_swot_analysis_def store_update_swot Let_def logger_info_def logger_error_def
        log_updating_def log_performing_def log_error_processing_def)

lemma ucs_no_row:
  assumes "llm w (length (llm_calls w)) (prompt name d) = Inr swot"
    and "store_fault w (store_ops w) = None"
    and "filter (\<lambda>r. PInt (row_id r) = cid) (table w) = []"
  shows "update_competitor_swot cid name d w =
    (Inl IndexError,
     w\<lparr>llm_calls := llm_calls w @ [prompt name d],
       store_ops := Suc (store_ops w),
       writes := writes w @ [(cid, swot_payload swot)],
       table := map (write_to cid swot) (table w),
       log := log w @ [log_updating cid name, log_performing name,
                       log_error_processing name IndexError]\<rparr>)"
  using assms
  by (simp add: update_competitor_swot_def update_competitor_swot_try_def
        get_swot_analysis_def store_update_swot Let_def logger_info_def logger_error_def
        log_updating_def log_performing_def log_error_processing_def)

lemma ucs_ok:
  assumes "llm w (length (llm_calls w)) (prompt name d) = Inr swot"
    and "store_fault w (store_ops w) = None"
    and "filter (\<lambda>r. PInt (row_id r) = cid) (table w) = r # rs"
  shows "update_competitor_swot cid name d w =
    (Inr (response_of_row (with_swot swot r)),
     w\<lparr>llm_calls := llm_calls w @ [prompt name d],
       store_ops := Suc (store_ops w),
       writes := writes w @ [(cid, swot_payload swot)],
       table := map (write_to cid swot) (table w),
       log := log w @ [log_updating cid name, log_performing name,
          (INFO, ''Successfully updated SWOT analysis for '' @ str_pyval name)]\<rparr>)"
  using assms
  by (simp add: update_competitor_swot_def update_competitor_swot_try_def
        get_swot_analysis_def store_update_swot Let_def logger_info_def logger_error_def
        log_updating_def log_performing_def make_response_all_columns)

lemma ucs_llm_calls:
  "llm_calls (snd (update_competitor_swot cid name d w)) = llm_calls w @ [prompt name d]"
proof (cases "llm w (length (llm_calls w)) (prompt name d)")
  case (Inl e)
  then show ?thesis by (simp add: ucs_llm_fails)
next
  case (Inr swot)
  show ?thesis
  proof (cases "store_fault w (store_ops w)")
    case (Some e)
    with Inr show ?thesis by (simp add: ucs_store_fault)
  next
    case None
    show ?thesis
    proof (cases "filter (\<lambda>r. PInt (row_id r) = cid) (table w)")
      case Nil
      with Inr None show ?thesis by (simp add: ucs_no_row)
    next
      case (Cons r rs)
      with Inr None show ?thesis by (simp add: ucs_ok)
    qed
  qed
qed

lemma ucs_success:
  assumes "update_competitor_swot cid name d w = (Inr u, w')"
  shows "\<exists>swot r rs. llm w (length (llm_calls w)) (prompt name d) = Inr swot \<and>
           store_fault w (store_ops w) = None \<and>
           filter (\<lambda>r. PInt (row_id r) = cid) (table w) = r # rs \<and>
           u = response_of_row (with_swot swot r)"
proof (cases "llm w (length (llm_calls w)) (prompt name d)")
  case (Inl e)
  with assms show ?thesis by (simp add: ucs_llm_fails)
next
  case (Inr swot)
  show ?thesis
  proof (cases "store_fault w (store_ops w)")
    case (Some e)
    with Inr assms show ?thesis by (simp add: ucs_store_fault)
  next
    case None
    show ?thesis
    proof (cases "filter (\<lambda>r. PInt (row_id r) = cid) (table w)")
      case Nil
      with Inr None assms show ?thesis by (simp add: ucs_no_row)
    next
      case (Cons r rs)
      with Inr None assms show ?thesis by (auto simp add: ucs_ok)
    qed
  qed
qed

subsection \<open>What a run can change\<close>

lemma descriptive_write_to [simp]: "descriptive (write_to cid swot r) = descriptive r"
  by (simp add: descriptive_def write_to_def with_swot_def)

lemma descriptive_with_swot [simp]: "descriptive (with_swot swot r) = descriptive r"
  by (simp add: descriptive_def with_swot_def)

lemma row_id_write_to [simp]: "row_id (write_to cid swot r) = row_id r"
  by (simp add: write_to_def with_swot_def)

lemma swot_payload_keys [simp]: "map fst (swot_payload swot) = output_columns"
  by (simp add: swot_payload_def output_columns_def)

lemma set_write_to_ids: "row_id ` set (map (write_to cid swot) t) = row_id ` set t"
  by (induction t) simp_all

lemma evolves_refl: "evolves I w w"
  by (simp add: evolves_def)

lemma evolves_log [simp]:
  "evolves I w (logger_info m w')  \<longleftrightarrow> evolves I w w'"
  "evolves I w (logger_error m w') \<longleftrightarrow> evolves I w w'"
  "evolves I (logger_info m w) w'  \<longleftrightarrow> evolves I w w'"
  "evolves I (logger_error m w) w' \<longleftrightarrow> evolves I w w'"
  by (simp_all add: evolves_def)

lemma evolves_mono: "evolves I w w' \<Longrightarrow> I \<subseteq> J \<Longrightarrow> evolves J w w'"
  unfolding evolves_def by blast

lemma evolves_trans:
  assumes a: "evolves I w w1" and b: "evolves I w1 w2"
  shows "evolves I w w2"
proof -
  have len: "length (table w1) = length (table w)"
    using a by (auto simp: evolves_def dest: map_eq_imp_length_eq)
  have ids: "\<And>i. i < length (table w) \<Longrightarrow> row_id (table w1 ! i) = row_id (table w ! i)"
  proof -
    fix i assume i: "i < length (table w)"
    have "map descriptive (table w1) ! i = map descriptive (table w) ! i"
      using a by (simp add: evolves_def)
    then show "row_id (table w1 ! i) = row_id (table w ! i)"
      using i len by (simp add: descriptive_def)
  qed
  have rows: "\<forall>i<length (table w). PInt (row_id (table w ! i)) \<notin> I \<longrightarrow> table w2 ! i = table w ! i"
  proof (intro allI impI)
    fix i assume i: "i < length (table w)" and n: "PInt (row_id (table w ! i)) \<notin> I"
    have "table w1 ! i = table w ! i" using a i n by (simp add: evolves_def)
    moreover have "table w2 ! i = table w1 ! i"
      using b i n len ids[OF i] by (simp add: evolves_def)
    ultimately show "table w2 ! i = table w ! i" by simp
  qed
  obtain n1 where n1: "writes w1 = writes w @ n1"
      "\<forall>u\<in>set n1. fst u \<in> I \<and> map fst (snd u) = output_columns"
    using a by (auto simp: evolves_def)
  obtain n2 where n2: "writes w2 = writes w1 @ n2"
      "\<forall>u\<in>set n2. fst u \<in> I \<and> map fst (snd u) = output_columns"
    using b by (auto simp: evolves_def)
  have wr: "\<exists>new. writes w2 = writes w @ new \<and>
       (\<forall>u\<in>set new. fst u \<in> I \<and> map fst (snd u) = output_columns)"
    using n1 n2 by (intro exI[of _ "n1 @ n2"]) auto
  show ?thesis
    unfolding evolves_def
    using a b rows wr by (simp add: evolves_def)
qed

lemma ucs_evolves: "evolves {cid} w (snd (update_competitor_swot cid name d w))"
proof (cases "llm w (length (llm_calls w)) (prompt name d)")
  case (Inl e)
  then show ?thesis by (simp add: ucs_llm_fails evolves_def)
next
  case (Inr swot)
  show ?thesis
  proof (cases "store_fault w (store_ops w)")
    case (Some e)
    with Inr show ?thesis by (simp add: ucs_store_fault evolves_def)
  next
    case None
    show ?thesis
    proof (cases "filter (\<lambda>r. PInt (row_id r) = cid) (table w)")
      case Nil
      with Inr None show ?thesis
        by (simp add: ucs_no_row evolves_def write_to_def o_def)
    next
      case (Cons r rs)
      with Inr None show ?thesis
        by (simp add: ucs_ok evolves_def write_to_def o_def)
    qed
  qed
qed

lemma update_single_evolves: "evolves {PInt cid} w (snd (update_single_competitor cid w))"
proof -
  let ?w0 = "logger_info (''Received request to update competitor ID: '' @ str_int cid) w"
  let ?w1 = "?w0\<lparr>store_ops := Suc (store_ops ?w0)\<rparr>"
  have e01: "evolves {PInt cid} w ?w1" by (simp add: evolves_def)
  show ?thesis
  proof (cases "store_fault w (store_ops w)")
    case (Some e)
    then show ?thesis
      by (simp add: update_single_competitor_def update_single_competitor_try_def
            select_eq_id_def Let_def evolves_def)
  next
    case None
    show ?thesis
    proof (cases "filter (\<lambda>r. row_id r = cid) (table w)")
      case Nil
      with None show ?thesis
        by (simp add: update_single_competitor_def update_single_competitor_try_def
              select_eq_id_def Let_def evolves_def)
    next
      case (Cons r rs)
      let ?run = "update_competitor_swot (PInt cid) (PStr (competitor_name r))
                    (selected_columns r) ?w1"
      have "evolves {PInt cid} ?w1 (snd ?run)" by (rule ucs_evolves)
      with e01 have e: "evolves {PInt cid} w (snd ?run)" by (rule evolves_trans)
      obtain x w2 where run: "?run = (x, w2)" by (cases ?run) blast
      have "snd (update_single_competitor cid w) = w2 \<or>
          (\<exists>m. snd (update_single_competitor cid w) = logger_error m w2)"
        using None Cons run
        by (cases x)
           (auto simp add: update_single_competitor_def update_single_competitor_try_def
              select_eq_id_def Let_def)
      with e run show ?thesis by auto
    qed
  qed
qed

subsection \<open>The batch loop\<close>

lemma loop_start_fields [simp]:
  "table (loop_start w) = table w"
  "llm (loop_start w) = llm w"
  "store_fault (loop_start w) = store_fault w"
  "llm_calls (loop_start w) = llm_calls w"
  "store_ops (loop_start w) = Suc (store_ops w)"
  "writes (loop_start w) = writes w"
  by (simp_all add: loop_start_def)

lemma evolves_loop_start: "evolves I w (loop_start w)"
  by (simp add: evolves_def)

lemma loop_Cons_selected:
  "update_all_loop (selected_columns r # ds) acc w =
    (case update_competitor_swot (PInt (row_id r)) (PStr (competitor_name r))
            (selected_columns r) w of
       (Inr u, w1) \<Rightarrow>
         update_all_loop ds (acc @ [u])
           (logger_info (''Successfully processed '' @ competitor_name r) w1)
     | (Inl e, w1) \<Rightarrow>
         update_all_loop ds acc
           (logger_error (''Error processing '' @ competitor_name r @ '': '' @ str_exn e) w1))"
  by (simp add: update_item_def item_failed_def split: prod.splits sum.splits)

lemma update_all_select_fault:
  assumes "store_fault w (store_ops w) = Some e"
  shows "fst (update_all_competitors w) = Inl (HTTPException 500 (str_exn e))"
    and "evolves I w (snd (update_all_competitors w))"
    and "llm_calls (snd (update_all_competitors w)) = llm_calls w"
  using assms
  by (simp_all add: update_all_competitors_def update_all_competitors_try_def
        select_strength_null_def Let_def evolves_def)

lemma update_all_no_rows:
  assumes "store_fault w (store_ops w) = None" and "unanalysed w = []"
  shows "fst (update_all_competitors w) = Inr (StatusOnly ''No competitors found needing updates'')"
    and "evolves I w (snd (update_all_competitors w))"
    and "llm_calls (snd (update_all_competitors w)) = llm_calls w"
    and "writes (snd (update_all_competitors w)) = writes w"
    and "table (snd (update_all_competitors w)) = table w"
  using assms
  by (simp_all add: update_all_competitors_def update_all_competitors_try_def
        select_strength_null_def Let_def evolves_def unanalysed_def)

lemma update_all_loop_result:
  assumes "store_fault w (store_ops w) = None" and "unanalysed w \<noteq> []"
    and "update_all_loop (map selected_columns (unanalysed w)) [] (loop_start w) = (Inr upd, w')"
  shows "update_all_competitors w = (Inr (Summary ''success'' (length upd) upd), w')"
  using assms
  by (simp add: update_all_competitors_def update_all_competitors_try_def
        select_strength_null_def Let_def unanalysed_def loop_start_def)

lemma loop_evolves:
  "\<exists>upd w'. update_all_loop (map selected_columns rs) acc w = (Inr (acc @ upd), w') \<and>
     subseq (map resp_id upd) (map row_id rs) \<and>
     evolves (PInt ` row_id ` set rs) w w' \<and>
     llm_calls w' = llm_calls w @ map prompt_of_row rs"
proof (induction rs arbitrary: acc w)
  case Nil
  then show ?case by (simp add: evolves_refl)
next
  case (Cons r rs)
  let ?I = "PInt ` row_id ` set (r # rs)"
  obtain x w1 where run: "update_competitor_swot (PInt (row_id r)) (PStr (competitor_name r))
      (selected_columns r) w = (x, w1)"
    by (cases "update_competitor_swot (PInt (row_id r)) (PStr (competitor_name r))
      (selected_columns r) w") blast
  have "evolves {PInt (row_id r)} w w1"
    using ucs_evolves [of "PInt (row_id r)" w "PStr (competitor_name r)" "selected_columns r"] run
    by simp
  then have e1: "evolves ?I w w1" by (rule evolves_mono) simp
  have c1: "llm_calls w1 = llm_calls w @ [prompt_of_row r]"
    using ucs_llm_calls [of "PInt (row_id r)" "PStr (competitor_name r)" "selected_columns r" w] run
    by (simp add: prompt_of_row_def)
  show ?case
  proof (cases x)
    case (Inl e)
    let ?w2 = "logger_error (''Error processing '' @ competitor_name r @ '': '' @ str_exn e) w1"
    obtain upd w' where ih: "update_all_loop (map selected_columns rs) acc ?w2 = (Inr (acc @ upd), w')"
        "subseq (map resp_id upd) (map row_id rs)"
        "evolves (PInt ` row_id ` set rs) ?w2 w'"
        "llm_calls w' = llm_calls ?w2 @ map prompt_of_row rs"
      using Cons.IH [of acc ?w2] by blast
    have "evolves (PInt ` row_id ` set rs) w1 w'" using ih(3) by simp
    then have "evolves ?I w1 w'" by (rule evolves_mono) auto
    with e1 have e: "evolves ?I w w'" by (rule evolves_trans)
    have l: "update_all_loop (map selected_columns (r # rs)) acc w = (Inr (acc @ upd), w')"
      using run Inl ih(1) by (simp add: loop_Cons_selected del: update_all_loop.simps)
    have s: "subseq (map resp_id upd) (map row_id (r # rs))"
      using ih(2) by auto
    have c: "llm_calls w' = llm_calls w @ map prompt_of_row (r # rs)"
      using ih(4) c1 by simp
    from l s e c show ?thesis by blast
  next
    case (Inr u)
    let ?w2 = "logger_info (''Successfully processed '' @ competitor_name r) w1"
    obtain upd w' where ih:
        "update_all_loop (map selected_columns rs) (acc @ [u]) ?w2 = (Inr ((acc @ [u]) @ upd), w')"
        "subseq (map resp_id upd) (map row_id rs)"
        "evolves (PInt ` row_id ` set rs) ?w2 w'"
        "llm_calls w' = llm_calls ?w2 @ map prompt_of_row rs"
      using Cons.IH [of "acc @ [u]" ?w2] by blast
    obtain swot r0 rs0 where ok:
        "filter (\<lambda>r'. PInt (row_id r') = PInt (row_id r)) (table w) = r0 # rs0"
        "u = response_of_row (with_swot swot r0)"
      using ucs_success [of "PInt (row_id r)" "PStr (competitor_name r)" "selected_columns r" w u w1]
        run Inr by blast
    have "r0 \<in> set (filter (\<lambda>r'. PInt (row_id r') = PInt (row_id r)) (table w))"
      using ok(1) by simp
    then have "row_id r0 = row_id r" by simp
    then have id: "resp_id u = row_id r"
      using ok(2) by (simp add: response_of_row_def with_swot_def)
    have "evolves (PInt ` row_id ` set rs) w1 w'" using ih(3) by simp
    then have "evolves ?I w1 w'" by (rule evolves_mono) auto
    with e1 have e: "evolves ?I w w'" by (rule evolves_trans)
    have l: "update_all_loop (map selected_columns (r # rs)) acc w = (Inr (acc @ (u # upd)), w')"
      using run Inr ih(1) by (simp add: loop_Cons_selected del: update_all_loop.simps)
    have s: "subseq (map resp_id (u # upd)) (map row_id (r # rs))"
      using ih(2) id by simp
    have c: "llm_calls w' = llm_calls w @ map prompt_of_row (r # rs)"
      using ih(4) c1 by simp
    from l s e c show ?thesis by blast
  qed
qed

lemma update_all_evolves:
  "evolves (PInt ` row_id ` set (unanalysed w)) w (snd (update_all_competitors w))"
proof (cases "store_fault w (store_ops w)")
  case (Some e)
  then show ?thesis by (rule update_all_select_fault)
next
  case None
  show ?thesis
  proof (cases "unanalysed w = []")
    case True
    with None show ?thesis by (rule update_all_no_rows)
  next
    case False
    obtain upd w' where l:
        "update_all_loop (map selected_columns (unanalysed w)) [] (loop_start w) = (Inr upd, w')"
        "evolves (PInt ` row_id ` set (unanalysed w)) (loop_start w) w'"
      using loop_evolves [of "unanalysed w" "[]" "loop_start w"] by auto
    have "evolves (PInt ` row_id ` set (unanalysed w)) w w'"
      using evolves_loop_start l(2) by (rule evolves_trans)
    then show ?thesis
      using update_all_loop_result [OF None False l(1)] by simp
  qed
qed

lemma update_all_llm_calls:
  "llm_calls (snd (update_all_competitors w)) = llm_calls w \<or>
   llm_calls (snd (update_all_competitors w)) = llm_calls w @ map prompt_of_row (unanalysed w)"
proof (cases "store_fault w (store_ops w)")
  case (Some e)
  then show ?thesis by (simp add: update_all_select_fault)
next
  case None
  show ?thesis
  proof (cases "unanalysed w = []")
    case True
    with None show ?thesis by (simp add: update_all_no_rows)
  next
    case False
    obtain upd w' where l:
        "update_all_loop (map selected_columns (unanalysed w)) [] (loop_start w) = (Inr upd, w')"
        "llm_calls w' = llm_calls (loop_start w) @ map prompt_of_row (unanalysed w)"
      using loop_evolves [of "unanalysed w" "[]" "loop_start w"] by auto
    show ?thesis
      using update_all_loop_result [OF None False l(1)] l(2) by simp
  qed
qed

lemma update_all_summary_form:
  assumes "fst (update_all_competitors w) = Inr (Summary s n upd)"
  shows "s = ''success'' \<and> n = length upd \<and>
         subseq (map resp_id upd) (map row_id (unanalysed w))"
proof (cases "store_fault w (store_ops w)")
  case (Some e)
  with assms show ?thesis by (simp add: update_all_select_fault)
next
  case None
  show ?thesis
  proof (cases "unanalysed w = []")
    case True
    with None assms show ?thesis by (simp add: update_all_no_rows)
  next
    case False
    obtain upd' w' where l:
        "update_all_loop (map selected_columns (unanalysed w)) [] (loop_start w) = (Inr upd', w')"
        "subseq (map resp_id upd') (map row_id (unanalysed w))"
      using loop_evolves [of "unanalysed w" "[]" "loop_start w"] by auto
    show ?thesis
      using update_all_loop_result [OF None False l(1)] l(2) assms by auto
  qed
qed

lemma succ_rows_all_ok:
  "\<forall>k<length rs. \<not> isl (f (c + k) (prompt_of_row (rs ! k))) \<Longrightarrow> succ_rows f c rs = rs"
proof (induction rs arbitrary: c)
  case Nil
  then show ?case by simp
next
  case (Cons r rs)
  have h0: "\<not> isl (f c (prompt_of_row r))" using Cons.prems by fastforce
  have "\<forall>k<length rs. \<not> isl (f (Suc c + k) (prompt_of_row (rs ! k)))"
  proof (intro allI impI)
    fix k assume "k < length rs"
    then have "\<not> isl (f (c + Suc k) (prompt_of_row ((r # rs) ! Suc k)))"
      using Cons.prems by (metis Suc_less_eq length_Cons)
    then show "\<not> isl (f (Suc c + k) (prompt_of_row (rs ! k)))" by simp
  qed
  then have "succ_rows f (Suc c) rs = rs" by (rule Cons.IH)
  with h0 show ?case by simp
qed

lemma succ_rows_one:
  "j < length rs \<Longrightarrow>
   \<forall>k<length rs. isl (f (c + k) (prompt_of_row (rs ! k))) \<longleftrightarrow> k = j \<Longrightarrow>
   succ_rows f c rs = take j rs @ drop (Suc j) rs"
proof (induction rs arbitrary: c j)
  case Nil
  then show ?case by simp
next
  case (Cons r rs)
  have shift: "\<And>k. k < length rs \<Longrightarrow>
      isl (f (Suc c + k) (prompt_of_row (rs ! k))) \<longleftrightarrow> Suc k = j"
  proof -
    fix k assume "k < length rs"
    then have "isl (f (c + Suc k) (prompt_of_row ((r # rs) ! Suc k))) \<longleftrightarrow> Suc k = j"
      using Cons.prems(2) by (metis Suc_less_eq length_Cons)
    then show "isl (f (Suc c + k) (prompt_of_row (rs ! k))) \<longleftrightarrow> Suc k = j" by simp
  qed
  have first: "isl (f c (prompt_of_row r)) \<longleftrightarrow> 0 = j"
    using Cons.prems(2) by fastforce
  show ?case
  proof (cases j)
    case 0
    have "\<forall>k<length rs. \<not> isl (f (Suc c + k) (prompt_of_row (rs ! k)))"
      using shift 0 by simp
    then have "succ_rows f (Suc c) rs = rs" by (rule succ_rows_all_ok)
    with first 0 show ?thesis by simp
  next
    case (Suc j')
    have "j' < length rs" using Cons.prems(1) Suc by simp
    moreover have "\<forall>k<length rs. isl (f (Suc c + k) (prompt_of_row (rs ! k))) \<longleftrightarrow> k = j'"
      using shift Suc by simp
    ultimately have "succ_rows f (Suc c) rs = take j' rs @ drop (Suc j') rs"
      by (rule Cons.IH)
    with first Suc show ?thesis by simp
  qed
qed

lemma loop_no_fault:
  assumes "\<forall>k. store_fault w k = None" and "row_id ` set rs \<subseteq> row_id ` set (table w)"
  shows "\<exists>upd w'. update_all_loop (map selected_columns rs) acc w = (Inr (acc @ upd), w') \<and>
           map resp_id upd = map row_id (succ_rows (llm w) (length (llm_calls w)) rs)"
  using assms
proof (induction rs arbitrary: acc w)
  case Nil
  then show ?case by simp
next
  case (Cons r rs)
  let ?name = "PStr (competitor_name r)"
  let ?d = "selected_columns r"
  have p: "prompt ?name ?d = prompt_of_row r" by (simp add: prompt_of_row_def)
  show ?case
  proof (cases "llm w (length (llm_calls w)) (prompt ?name ?d)")
    case (Inl e)
    let ?w1 = "w\<lparr>llm_calls := llm_calls w @ [prompt ?name ?d],
               log := log w @ [log_updating (PInt (row_id r)) ?name, log_performing ?name,
                               log_error_processing ?name e]\<rparr>"
    let ?w2 = "logger_error (''Error processing '' @ competitor_name r @ '': '' @ str_exn e) ?w1"
    have run: "update_competitor_swot (PInt (row_id r)) ?name ?d w = (Inl e, ?w1)"
      using Inl by (rule ucs_llm_fails)
    have "\<exists>upd w'. update_all_loop (map selected_columns rs) acc ?w2 = (Inr (acc @ upd), w') \<and>
           map resp_id upd = map row_id (succ_rows (llm ?w2) (length (llm_calls ?w2)) rs)"
      using Cons.prems by (intro Cons.IH) simp_all
    then obtain upd w' where ih:
        "update_all_loop (map selected_columns rs) acc ?w2 = (Inr (acc @ upd), w')"
        "map resp_id upd = map row_id (succ_rows (llm w) (Suc (length (llm_calls w))) rs)"
      by auto
    have "update_all_loop (map selected_columns (r # rs)) acc w = (Inr (acc @ upd), w')"
      using run ih(1) by (simp add: loop_Cons_selected del: update_all_loop.simps)
    moreover have "map resp_id upd =
        map row_id (succ_rows (llm w) (length (llm_calls w)) (r # rs))"
      using ih(2) Inl p by simp
    ultimately show ?thesis by blast
  next
    case (Inr swot)
    have nf: "store_fault w (store_ops w) = None" using Cons.prems(1) by simp
    have "row_id r \<in> row_id ` set (table w)" using Cons.prems(2) by simp
    then have "filter (\<lambda>r'. PInt (row_id r') = PInt (row_id r)) (table w) \<noteq> []"
      by (auto simp: filter_empty_conv)
    then obtain r0 rs0 where f: "filter (\<lambda>r'. PInt (row_id r') = PInt (row_id r)) (table w) = r0 # rs0"
      by (cases "filter (\<lambda>r'. PInt (row_id r') = PInt (row_id r)) (table w)") auto
    have "r0 \<in> set (filter (\<lambda>r'. PInt (row_id r') = PInt (row_id r)) (table w))"
      using f by simp
    then have id0: "row_id r0 = row_id r" by simp
    let ?u = "response_of_row (with_swot swot r0)"
    let ?w1 = "w\<lparr>llm_calls := llm_calls w @ [prompt ?name ?d],
       store_ops := Suc (store_ops w),
       writes := writes w @ [(PInt (row_id r), swot_payload swot)],
       table := map (write_to (PInt (row_id r)) swot) (table w),
       log := log w @ [log_updating (PInt (row_id r)) ?name, log_performing ?name,
          (INFO, ''Successfully updated SWOT analysis for '' @ str_pyval ?name)]\<rparr>"
    let ?w2 = "logger_info (''Successfully processed '' @ competitor_name r) ?w1"
    have run: "update_competitor_swot (PInt (row_id r)) ?name ?d w = (Inr ?u, ?w1)"
      using Inr nf f by (rule ucs_ok)
    have ids: "row_id ` set rs \<subseteq> row_id ` set (table ?w2)"
      using Cons.prems(2) by (simp add: set_write_to_ids del: set_map)
    have "\<exists>upd w'. update_all_loop (map selected_columns rs) (acc @ [?u]) ?w2
              = (Inr ((acc @ [?u]) @ upd), w') \<and>
           map resp_id upd = map row_id (succ_rows (llm ?w2) (length (llm_calls ?w2)) rs)"
      using Cons.prems(1) ids by (intro Cons.IH) simp_all
    then obtain upd w' where ih:
        "update_all_loop (map selected_columns rs) (acc @ [?u]) ?w2 = (Inr (acc @ ?u # upd), w')"
        "map resp_id upd = map row_id (succ_rows (llm w) (Suc (length (llm_calls w))) rs)"
      by auto
    have "update_all_loop (map selected_columns (r # rs)) acc w = (Inr (acc @ ?u # upd), w')"
      using run ih(1) by (simp add: loop_Cons_selected del: update_all_loop.simps)
    moreover have "map resp_id (?u # upd) =
        map row_id (succ_rows (llm w) (length (llm_calls w)) (r # rs))"
      using ih(2) Inr p id0 by (simp add: response_of_row_def with_swot_def)
    ultimately show ?thesis by blast
  qed
qed

lemma loop_all_fail:
  assumes "\<forall>k<length rs. isl (llm w (length (llm_calls w) + k) (prompt_of_row (rs ! k))) \<or>
             (\<forall>n\<ge>store_ops w. store_fault w n \<noteq> None)"
  shows "\<exists>w'. update_all_loop (map selected_columns rs) acc w = (Inr acc, w')"
  using assms
proof (induction rs arbitrary: w)
  case Nil
  then show ?case by simp
next
  case (Cons r rs)
  let ?name = "PStr (competitor_name r)"
  let ?d = "selected_columns r"
  have p: "prompt ?name ?d = prompt_of_row r" by (simp add: prompt_of_row_def)
  have first: "isl (llm w (length (llm_calls w)) (prompt_of_row r)) \<or>
      (\<forall>n\<ge>store_ops w. store_fault w n \<noteq> None)"
    using Cons.prems by fastforce
  have rest: "\<And>k. k < length rs \<Longrightarrow>
      isl (llm w (Suc (length (llm_calls w)) + k) (prompt_of_row (rs ! k))) \<or>
      (\<forall>n\<ge>store_ops w. store_fault w n \<noteq> None)"
  proof -
    fix k assume "k < length rs"
    then have "isl (llm w (length (llm_calls w) + Suc k) (prompt_of_row ((r # rs) ! Suc k))) \<or>
      (\<forall>n\<ge>store_ops w. store_fault w n \<noteq> None)"
      using Cons.prems by (metis Suc_less_eq length_Cons)
    then show "isl (llm w (Suc (length (llm_calls w)) + k) (prompt_of_row (rs ! k))) \<or>
      (\<forall>n\<ge>store_ops w. store_fault w n \<noteq> None)" by simp
  qed
  show ?case
  proof (cases "llm w (length (llm_calls w)) (prompt ?name ?d)")
    case (Inl e)
    let ?w1 = "w\<lparr>llm_calls := llm_calls w @ [prompt ?name ?d],
               log := log w @ [log_updating (PInt (row_id r)) ?name, log_performing ?name,
                               log_error_processing ?name e]\<rparr>"
    let ?w2 = "logger_error (''Error processing '' @ competitor_name r @ '': '' @ str_exn e) ?w1"
    have run: "update_competitor_swot (PInt (row_id r)) ?name ?d w = (Inl e, ?w1)"
      using Inl by (rule ucs_llm_fails)
    have "\<exists>w'. update_all_loop (map selected_columns rs) acc ?w2 = (Inr acc, w')"
      using rest by (intro Cons.IH) simp
    then obtain w' where "update_all_loop (map selected_columns rs) acc ?w2 = (Inr acc, w')"
      by blast
    then have "update_all_loop (map selected_columns (r # rs)) acc w = (Inr acc, w')"
      using run by (simp add: loop_Cons_selected del: update_all_loop.simps)
    then show ?thesis by blast
  next
    case (Inr swot)
    then have all: "\<forall>n\<ge>store_ops w. store_fault w n \<noteq> None"
      using first p by simp
    then obtain e where sf: "store_fault w (store_ops w) = Some e" by auto
    let ?w1 = "w\<lparr>llm_calls := llm_calls w @ [prompt ?name ?d],
               store_ops := Suc (store_ops w),
               writes := writes w @ [(PInt (row_id r), swot_payload swot)],
               log := log w @ [log_updating (PInt (row_id r)) ?name, log_performing ?name,
                               log_error_processing ?name e]\<rparr>"
    let ?w2 = "logger_error (''Error processing '' @ competitor_name r @ '': '' @ str_exn e) ?w1"
    have run: "update_competitor_swot (PInt (row_id r)) ?name ?d w = (Inl e, ?w1)"
      using Inr sf by (rule ucs_store_fault)
    have "\<exists>w'. update_all_loop (map selected_columns rs) acc ?w2 = (Inr acc, w')"
      using all by (intro Cons.IH) simp
    then obtain w' where "update_all_loop (map selected_columns rs) acc ?w2 = (Inr acc, w')"
      by blast
    then have "update_all_loop (map selected_columns (r # rs)) acc w = (Inr acc, w')"
      using run by (simp add: loop_Cons_selected del: update_all_loop.simps)
    then show ?thesis by blast
  qed
qed

subsection \<open>Sample runs\<close>

lemma unanalysed_one_failure: "unanalysed one_failure = [acme, initech]"
  by (simp add: unanalysed_def one_failure_def test_world_def acme_def globex_def initech_def)

lemma unanalysed_all_failures: "unanalysed all_failures = [acme, initech]"
  by (simp add: unanalysed_def all_failures_def test_world_def acme_def globex_def initech_def)

lemma one_failure_run:
  "fst (update_all_competitors one_failure) =
     Inr (Summary ''success'' 1
       [CompetitorResponse 7 ''Acme'' (Some ''S'') (Some ''W'') (Some ''O'') (Some ''T'')])"
  by (simp add: update_all_competitors_def update_all_competitors_try_def
        select_strength_null_def update_item_def item_failed_def
        update_competitor_swot_def update_competitor_swot_try_def get_swot_analysis_def
        store_update_swot make_response_all_columns Let_def
        one_failure_def test_world_def acme_def globex_def initech_def sample_swot_def
        response_of_row_def with_swot_def write_to_def logger_info_def logger_error_def)

subsection \<open>The single-competitor endpoint\<close>

lemma update_single_absent_id:
  assumes "store_fault w (store_ops w) = None"
    and "filter (\<lambda>r. row_id r = cid) (table w) = []"
  shows "fst (update_single_competitor cid w) =
           Inl (HTTPException 500 (str_exn (HTTPException 404 ''Competitor not found'')))"
    and "http_status (fst (update_single_competitor cid w)) = 500"
    and "writes (snd (update_single_competitor cid w)) = writes w"
    and "table (snd (update_single_competitor cid w)) = table w"
  using assms
  by (simp_all add: update_single_competitor_def update_single_competitor_try_def
        select_eq_id_def Let_def)

text \<open>
  C1 (the code departs from the claim). For an id absent from the store,
  \<open>update_single_competitor\<close> raises \<open>HTTPException(404)\<close> inside its own \<open>try\<close> block;
  the \<open>except Exception\<close> clause of that block catches it and raises \<open>HTTPException(500)\<close>.
  The caller therefore receives status 500, not 404. No store write is issued.
  Evaluated for id 7 on an empty table.
\<close>

theorem update_single_absent_id_is_500:
  "http_status (fst (update_single_competitor 7 (test_world [] (\<lambda>k. Inr sample_swot)))) = 500 \<and>
   writes (snd (update_single_competitor 7 (test_world [] (\<lambda>k. Inr sample_swot)))) = []"
  by (simp add: update_single_competitor_def update_single_competitor_try_def select_eq_id_def
        test_world_def Let_def logger_info_def logger_error_def)

subsection \<open>The prompt\<close>

lemma prompt_contains_name: "sublist (str_pyval name) (prompt name d)"
  unfolding prompt_def by (rule sublist_appendI)

lemma prompt_program_summary:
  "sublist (''Program Summary: '' @ str_pyval (dict_get d ''program_summary'' (PStr ''N/A'')))
     (prompt name d)"
proof -
  have "prompt name d =
      (''Perform a detailed SWOT analysis of '' @ str_pyval name @ [CHR 0x27] @
       ''s loyalty program based on this existing data:'' @ [CHR 0x0A, CHR 0x0A] @ ''   '') @
      (''Program Summary: '' @ str_pyval (dict_get d ''program_summary'' (PStr ''N/A''))) @
      ([CHR 0x0A] @
       ''   Market Positioning: '' @
         str_pyval (dict_get d ''competitor_positioning'' (PStr ''N/A'')) @ [CHR 0x0A] @
       ''   Rewards and Benefits: '' @
         str_pyval (dict_get d ''competitor_rewards_benefits'' (PStr ''N/A'')) @ [CHR 0x0A] @
       ''   User Feedback: '' @
         str_pyval (dict_get d ''competitor_user_feedback'' (PStr ''N/A'')) @
         [CHR 0x0A, CHR 0x0A] @
       ''   Provide a comprehensive SWOT analysis with each component in 3 bullet points.'')"
    by (simp add: prompt_def)
  then show ?thesis by (metis sublist_appendI)
qed

lemma prompt_missing_key:
  assumes "map_of d ''program_summary'' = None"
  shows "sublist ''Program Summary: N/A'' (prompt name d)"
  using prompt_program_summary [of d name] assms by (simp add: dict_get_def)

lemma prompt_null_value:
  assumes "map_of d ''program_summary'' = Some PNone"
  shows "sublist ''Program Summary: None'' (prompt name d)"
  using prompt_program_summary [of d name] assms by (simp add: dict_get_def)

text \<open>
  C2 (the code departs from the claim). The prompt contains the competitor's name, and the
  placeholder N/A stands for a descriptive field whose key is missing from the mapping.
  A field that is present with value null is rendered as the text None: \<open>dict.get\<close> returns
  its default only for a missing key. The rows the store returns always carry the four keys,
  so for the competitor of the scenario (all four descriptive fields null) the prompt contains
  no N/A at all.
\<close>

theorem prompt_null_fields_render_None:
  "sublist ''Program Summary: None'' (prompt (PStr ''Acme'') (selected_columns acme)) \<and>
   \<not> sublist ''N/A'' (prompt (PStr ''Acme'') (selected_columns acme))"
  by code_simp

subsection \<open>The updater\<close>

text \<open>
  C3. When the LLM call of \<open>update_competitor_swot\<close> fails with \<open>e\<close>, the updater raises that
  same \<open>e\<close> to its caller (no fallback value), the last line it logs is the error line, and
  no request was sent to the store: the update requests, the count of store round trips and
  the table are as before.
\<close>

theorem update_competitor_swot_llm_failure:
  assumes "llm w (length (llm_calls w)) (prompt name d) = Inl e"
  shows "fst (update_competitor_swot cid name d w) = Inl e \<and>
         writes (snd (update_competitor_swot cid name d w)) = writes w \<and>
         store_ops (snd (update_competitor_swot cid name d w)) = store_ops w \<and>
         table (snd (update_competitor_swot cid name d w)) = table w \<and>
         last (log (snd (update_competitor_swot cid name d w))) =
           (ERROR, ''Error processing '' @ str_pyval name @ '': '' @ str_exn e)"
  using assms by (simp add: ucs_llm_fails log_error_processing_def)

theorem update_competitor_swot_llm_failure_witness:
  "llm (test_world [acme] (\<lambda>k. Inl (ServiceError ''rate limit'')))
     (length (llm_calls (test_world [acme] (\<lambda>k. Inl (ServiceError ''rate limit'')))))
     (prompt (PStr ''Acme'') (selected_columns acme)) = Inl (ServiceError ''rate limit'') \<and>
   fst (update_competitor_swot (PInt 7) (PStr ''Acme'') (selected_columns acme)
     (test_world [acme] (\<lambda>k. Inl (ServiceError ''rate limit'')))) = Inl (ServiceError ''rate limit'') \<and>
   writes (snd (update_competitor_swot (PInt 7) (PStr ''Acme'') (selected_columns acme)
     (test_world [acme] (\<lambda>k. Inl (ServiceError ''rate limit''))))) = [] \<and>
   table (snd (update_competitor_swot (PInt 7) (PStr ''Acme'') (selected_columns acme)
     (test_world [acme] (\<lambda>k. Inl (ServiceError ''rate limit''))))) = [acme] \<and>
   last (log (snd (update_competitor_swot (PInt 7) (PStr ''Acme'') (selected_columns acme)
     (test_world [acme] (\<lambda>k. Inl (ServiceError ''rate limit'')))))) =
     (ERROR, ''Error processing Acme: rate limit'')"
proof -
  have h: "llm (test_world [acme] (\<lambda>k. Inl (ServiceError ''rate limit'')))
     (length (llm_calls (test_world [acme] (\<lambda>k. Inl (ServiceError ''rate limit'')))))
     (prompt (PStr ''Acme'') (selected_columns acme)) = Inl (ServiceError ''rate limit'')"
    by (simp add: test_world_def)
  show ?thesis
    using h update_competitor_swot_llm_failure [OF h, of "PInt 7"]
    by (simp add: test_world_def)
qed

text \<open>
  C6. An invocation of \<open>update_competitor_swot\<close> that returns a record has sent exactly one
  request to the LLM (the prompt of that competitor) and exactly one update request to the
  store (filtered by the competitor's id, carrying the analysis the LLM returned).
\<close>

theorem update_competitor_swot_one_call_one_write:
  assumes "update_competitor_swot cid name d w = (Inr u, w')"
  shows "\<exists>swot. llm w (length (llm_calls w)) (prompt name d) = Inr swot \<and>
           llm_calls w' = llm_calls w @ [prompt name d] \<and>
           writes w' = writes w @ [(cid, swot_payload swot)] \<and>
           store_ops w' = Suc (store_ops w)"
proof -
  obtain swot r rs where *: "llm w (length (llm_calls w)) (prompt name d) = Inr swot"
      "store_fault w (store_ops w) = None"
      "filter (\<lambda>r. PInt (row_id r) = cid) (table w) = r # rs"
    using ucs_success [OF assms] by blast
  have "w' = snd (update_competitor_swot cid name d w)" using assms by simp
  then show ?thesis using * by (simp add: ucs_ok)
qed

theorem update_competitor_swot_one_call_one_write_witness:
  "\<exists>u w'. update_competitor_swot (PInt 7) (PStr ''Acme'') (selected_columns acme)
            (test_world [acme] (\<lambda>k. Inr sample_swot)) = (Inr u, w') \<and>
     llm_calls w' = [prompt (PStr ''Acme'') (selected_columns acme)] \<and>
     writes w' = [(PInt 7, swot_payload sample_swot)] \<and>
     store_ops w' = 1"
proof -
  obtain u w' where run: "update_competitor_swot (PInt 7) (PStr ''Acme'') (selected_columns acme)
            (test_world [acme] (\<lambda>k. Inr sample_swot)) = (Inr u, w')"
    by (simp add: ucs_ok [where swot = sample_swot and r = acme and rs = "[]"]
          test_world_def acme_def)
  show ?thesis
    using run update_competitor_swot_one_call_one_write [OF run]
    by (auto simp: test_world_def)
qed

text \<open>
  C10. If the LLM call succeeds and the store executes the update but no row has the given id,
  the response holds no row and \<open>update_competitor_swot\<close> raises \<open>IndexError\<close>. Whenever it
  returns a record, that record is built from a row of the table with the given id, as the
  store reported it after the update.
\<close>

theorem update_competitor_swot_no_row:
  "(llm w (length (llm_calls w)) (prompt name d) = Inr swot \<and>
    store_fault w (store_ops w) = None \<and>
    (\<forall>r\<in>set (table w). PInt (row_id r) \<noteq> cid)
      \<longrightarrow> fst (update_competitor_swot cid name d w) = Inl IndexError) \<and>
   (fst (update_competitor_swot cid name d w) = Inr u
      \<longrightarrow> (\<exists>s r. llm w (length (llm_calls w)) (prompt name d) = Inr s \<and>
            r \<in> set (table w) \<and> PInt (row_id r) = cid \<and>
            with_swot s r \<in> set (table (snd (update_competitor_swot cid name d w))) \<and>
            u = response_of_row (with_swot s r)))"
proof (intro conjI impI)
  assume a: "llm w (length (llm_calls w)) (prompt name d) = Inr swot \<and>
    store_fault w (store_ops w) = None \<and> (\<forall>r\<in>set (table w). PInt (row_id r) \<noteq> cid)"
  then have "filter (\<lambda>r. PInt (row_id r) = cid) (table w) = []"
    by (simp add: filter_empty_conv)
  with a show "fst (update_competitor_swot cid name d w) = Inl IndexError"
    by (simp add: ucs_no_row)
next
  assume "fst (update_competitor_swot cid name d w) = Inr u"
  then have run: "update_competitor_swot cid name d w =
      (Inr u, snd (update_competitor_swot cid name d w))"
    by (metis prod.collapse)
  obtain s r rs where *: "llm w (length (llm_calls w)) (prompt name d) = Inr s"
      "store_fault w (store_ops w) = None"
      "filter (\<lambda>r. PInt (row_id r) = cid) (table w) = r # rs"
      "u = response_of_row (with_swot s r)"
    using ucs_success [OF run] by blast
  have "r \<in> set (filter (\<lambda>r. PInt (row_id r) = cid) (table w))"
    using *(3) by simp
  then have r: "r \<in> set (table w)" "PInt (row_id r) = cid" by simp_all
  have "write_to cid s r \<in> set (map (write_to cid s) (table w))"
    using r(1) by simp
  then have "with_swot s r \<in> set (table (snd (update_competitor_swot cid name d w)))"
    using * r(2) by (simp add: ucs_ok write_to_def)
  with * r show "\<exists>s r. llm w (length (llm_calls w)) (prompt name d) = Inr s \<and>
            r \<in> set (table w) \<and> PInt (row_id r) = cid \<and>
            with_swot s r \<in> set (table (snd (update_competitor_swot cid name d w))) \<and>
            u = response_of_row (with_swot s r)"
    by blast
qed

theorem update_competitor_swot_no_row_witness:
  "(llm (test_world [] (\<lambda>k. Inr sample_swot)) (length (llm_calls (test_world [] (\<lambda>k. Inr sample_swot))))
      (prompt (PStr ''Acme'') (selected_columns acme)) = Inr sample_swot \<and>
    store_fault (test_world [] (\<lambda>k. Inr sample_swot))
      (store_ops (test_world [] (\<lambda>k. Inr sample_swot))) = None \<and>
    table (test_world [] (\<lambda>k. Inr sample_swot)) = [] \<and>
    fst (update_competitor_swot (PInt 7) (PStr ''Acme'') (selected_columns acme)
      (test_world [] (\<lambda>k. Inr sample_swot))) = Inl IndexError) \<and>
   (fst (update_competitor_swot (PInt 7) (PStr ''Acme'') (selected_columns acme)
      (test_world [acme] (\<lambda>k. Inr sample_swot))) = Inr (response_of_row (with_swot sample_swot acme)) \<and>
    (\<exists>s r. r \<in> set (table (test_world [acme] (\<lambda>k. Inr sample_swot))) \<and> PInt (row_id r) = PInt 7 \<and>
       response_of_row (with_swot sample_swot acme) = response_of_row (with_swot s r)))"
proof -
  let ?w0 = "test_world [] (\<lambda>k. Inr sample_swot)"
  let ?w1 = "test_world [acme] (\<lambda>k. Inr sample_swot)"
  have h: "llm ?w0 (length (llm_calls ?w0)) (prompt (PStr ''Acme'') (selected_columns acme)) = Inr sample_swot \<and>
      store_fault ?w0 (store_ops ?w0) = None \<and> (\<forall>r\<in>set (table ?w0). PInt (row_id r) \<noteq> PInt 7)"
    by (simp add: test_world_def)
  have a: "fst (update_competitor_swot (PInt 7) (PStr ''Acme'') (selected_columns acme) ?w0) = Inl IndexError"
    using h update_competitor_swot_no_row
      [of ?w0 "PStr ''Acme''" "selected_columns acme" sample_swot "PInt 7"]
    by blast
  have r: "fst (update_competitor_swot (PInt 7) (PStr ''Acme'') (selected_columns acme) ?w1)
      = Inr (response_of_row (with_swot sample_swot acme))"
    by (simp add: ucs_ok [where swot = sample_swot and r = acme and rs = "[]"]
          test_world_def acme_def)
  have b: "\<exists>s r. r \<in> set (table ?w1) \<and> PInt (row_id r) = PInt 7 \<and>
       response_of_row (with_swot sample_swot acme) = response_of_row (with_swot s r)"
    using r update_competitor_swot_no_row
      [of ?w1 "PStr ''Acme''" "selected_columns acme" _ "PInt 7"
          "response_of_row (with_swot sample_swot acme)"]
    by blast
  have t: "table ?w0 = []" by (simp add: test_world_def)
  show ?thesis using h t a r b by blast
qed

subsection \<open>The batch endpoint\<close>

text \<open>
  C5. When the query of \<open>update_all_competitors\<close> is answered and selects no row, the endpoint
  returns the body with the status alone (an answer with HTTP status 200), no request was
  sent to the LLM, no update request was sent to the store, and the table is as before.
\<close>

theorem update_all_no_matching_rows:
  assumes "store_fault w (store_ops w) = None"
    and "filter (\<lambda>r. competitor_strength r = None) (table w) = []"
  shows "fst (update_all_competitors w) = Inr (StatusOnly ''No competitors found needing updates'') \<and>
         http_status (fst (update_all_competitors w)) = 200 \<and>
         llm_calls (snd (update_all_competitors w)) = llm_calls w \<and>
         writes (snd (update_all_competitors w)) = writes w \<and>
         table (snd (update_all_competitors w)) = table w"
proof -
  have u: "unanalysed w = []" using assms(2) by (simp add: unanalysed_def)
  show ?thesis
    using update_all_no_rows [OF assms(1) u] by simp
qed

theorem update_all_no_matching_rows_witness:
  "store_fault (test_world [globex] (\<lambda>k. Inr sample_swot))
     (store_ops (test_world [globex] (\<lambda>k. Inr sample_swot))) = None \<and>
   filter (\<lambda>r. competitor_strength r = None) (table (test_world [globex] (\<lambda>k. Inr sample_swot))) = [] \<and>
   fst (update_all_competitors (test_world [globex] (\<lambda>k. Inr sample_swot)))
     = Inr (StatusOnly ''No competitors found needing updates'') \<and>
   llm_calls (snd (update_all_competitors (test_world [globex] (\<lambda>k. Inr sample_swot)))) = [] \<and>
   writes (snd (update_all_competitors (test_world [globex] (\<lambda>k. Inr sample_swot)))) = [] \<and>
   table (snd (update_all_competitors (test_world [globex] (\<lambda>k. Inr sample_swot)))) = [globex]"
proof -
  let ?w = "test_world [globex] (\<lambda>k. Inr sample_swot)"
  have h1: "store_fault ?w (store_ops ?w) = None" by (simp add: test_world_def)
  have h2: "filter (\<lambda>r. competitor_strength r = None) (table ?w) = []"
    by (simp add: test_world_def globex_def)
  show ?thesis
    using h1 h2 update_all_no_matching_rows [OF h1 h2] by (simp add: test_world_def)
qed

text \<open>
  C4. When the store answers every request and, of the \<open>N\<close> rows the query returns, the LLM
  request of exactly one (the row at position \<open>j\<close>) fails, \<open>update_all_competitors\<close> returns
  a body (HTTP status 200, no exception) with status success and \<open>total_processed = N - 1\<close>;
  the list holds the records of the other rows, in order, so with unique ids the id of the
  failing competitor is not in it.
\<close>

theorem update_all_one_llm_failure:
  assumes "\<forall>k. store_fault w k = None"
    and "j < length (unanalysed w)"
    and "\<forall>k<length (unanalysed w).
           isl (llm w (length (llm_calls w) + k) (prompt_of_row (unanalysed w ! k))) \<longleftrightarrow> k = j"
  shows "\<exists>upd. fst (update_all_competitors w)
                 = Inr (Summary ''success'' (length (unanalysed w) - 1) upd) \<and>
           http_status (fst (update_all_competitors w)) = 200 \<and>
           map resp_id upd = map row_id (take j (unanalysed w) @ drop (Suc j) (unanalysed w)) \<and>
           (distinct (map row_id (table w)) \<longrightarrow> row_id (unanalysed w ! j) \<notin> resp_id ` set upd)"
proof -
  let ?rs = "unanalysed w"
  have ne: "?rs \<noteq> []" using assms(2) by auto
  have nf: "store_fault w (store_ops w) = None" using assms(1) by simp
  have sub: "row_id ` set ?rs \<subseteq> row_id ` set (table (loop_start w))"
    by (auto simp: unanalysed_def)
  obtain upd w' where l:
      "update_all_loop (map selected_columns ?rs) [] (loop_start w) = (Inr upd, w')"
      "map resp_id upd = map row_id (succ_rows (llm w) (length (llm_calls w)) ?rs)"
    using loop_no_fault [of "loop_start w" ?rs "[]"] assms(1) sub by auto
  have "succ_rows (llm w) (length (llm_calls w)) ?rs = take j ?rs @ drop (Suc j) ?rs"
    using assms(2,3) by (rule succ_rows_one)
  with l(2) have ids: "map resp_id upd = map row_id (take j ?rs @ drop (Suc j) ?rs)" by simp
  have "length (map resp_id upd) = length (map row_id (take j ?rs @ drop (Suc j) ?rs))"
    using ids by simp
  then have len: "length upd = length ?rs - 1" using assms(2) by simp
  have res: "update_all_competitors w = (Inr (Summary ''success'' (length upd) upd), w')"
    using nf ne l(1) by (rule update_all_loop_result)
  have absent: "distinct (map row_id (table w)) \<longrightarrow> row_id (?rs ! j) \<notin> resp_id ` set upd"
  proof
    assume "distinct (map row_id (table w))"
    then have dxs: "distinct (map row_id ?rs)"
      by (simp add: unanalysed_def distinct_map_filter)
    have jl: "j < length (map row_id ?rs)" using assms(2) by simp
    have "map row_id ?rs =
        take j (map row_id ?rs) @ map row_id ?rs ! j # drop (Suc j) (map row_id ?rs)"
      using jl by (rule id_take_nth_drop)
    then have "distinct
        (take j (map row_id ?rs) @ map row_id ?rs ! j # drop (Suc j) (map row_id ?rs))"
      using dxs by metis
    then have "map row_id ?rs ! j \<notin> set (take j (map row_id ?rs)) \<and>
        map row_id ?rs ! j \<notin> set (drop (Suc j) (map row_id ?rs))"
      unfolding distinct_append distinct.simps by auto
    then have "row_id (?rs ! j) \<notin> set (take j (map row_id ?rs)) \<union> set (drop (Suc j) (map row_id ?rs))"
      using assms(2) by (simp only: nth_map Un_iff) blast
    moreover have "resp_id ` set upd = set (take j (map row_id ?rs)) \<union> set (drop (Suc j) (map row_id ?rs))"
    proof -
      have "resp_id ` set upd = set (map resp_id upd)" by simp
      also have "\<dots> = set (map row_id (take j ?rs @ drop (Suc j) ?rs))" using ids by simp
      also have "\<dots> = set (take j (map row_id ?rs)) \<union> set (drop (Suc j) (map row_id ?rs))"
        by (simp only: map_append set_append take_map drop_map)
      finally show ?thesis .
    qed
    ultimately show "row_id (?rs ! j) \<notin> resp_id ` set upd" by simp
  qed
  from res len ids absent show ?thesis by auto
qed

theorem update_all_one_llm_failure_witness:
  "(\<forall>k. store_fault one_failure k = None) \<and>
   unanalysed one_failure = [acme, initech] \<and>
   isl (llm one_failure 1 (prompt_of_row initech)) \<and>
   \<not> isl (llm one_failure 0 (prompt_of_row acme)) \<and>
   (\<exists>upd. fst (update_all_competitors one_failure) = Inr (Summary ''success'' 1 upd) \<and>
      http_status (fst (update_all_competitors one_failure)) = 200 \<and>
      map resp_id upd = [7] \<and> 9 \<notin> resp_id ` set upd)"
proof -
  have h1: "\<forall>k. store_fault one_failure k = None"
    by (simp add: one_failure_def test_world_def)
  have h2: "1 < length (unanalysed one_failure)"
    by (simp add: unanalysed_one_failure)
  have h3: "\<forall>k<length (unanalysed one_failure).
      isl (llm one_failure (length (llm_calls one_failure) + k)
             (prompt_of_row (unanalysed one_failure ! k))) \<longleftrightarrow> k = 1"
    by (simp add: one_failure_def test_world_def)
  have d: "distinct (map row_id (table one_failure))"
    by (simp add: one_failure_def test_world_def acme_def globex_def initech_def)
  have c: "\<exists>upd. fst (update_all_competitors one_failure) = Inr (Summary ''success'' 1 upd) \<and>
      http_status (fst (update_all_competitors one_failure)) = 200 \<and>
      map resp_id upd = [7] \<and> 9 \<notin> resp_id ` set upd"
    using update_all_one_llm_failure [OF h1 h2 h3] d
    by (simp add: unanalysed_one_failure acme_def initech_def)
  have l: "isl (llm one_failure 1 (prompt_of_row initech)) \<and>
      \<not> isl (llm one_failure 0 (prompt_of_row acme))"
    by (simp add: one_failure_def test_world_def)
  show ?thesis using h1 unanalysed_one_failure l c by blast
qed

text \<open>
  C7. The batch works from the rows whose \<open>competitor_strength\<close> is null when it queries the
  store (\<open>unanalysed w\<close>): every update request it sends is filtered by the id of such a row,
  the prompts it sends are those of these rows, in order, and a row whose id is not the id of
  such a row is left as it was. With ids that are unique, as for a primary key, every row
  that was already analysed is left as it was.
\<close>

theorem update_all_targets_unanalysed_rows:
  assumes "update_all_competitors w = (res, w')"
  shows "set (unanalysed w) = {r \<in> set (table w). competitor_strength r = None} \<and>
    (\<exists>new. writes w' = writes w @ new \<and> fst ` set new \<subseteq> PInt ` row_id ` set (unanalysed w)) \<and>
    (llm_calls w' = llm_calls w \<or>
     llm_calls w' = llm_calls w @ map prompt_of_row (unanalysed w)) \<and>
    (\<forall>i<length (table w).
       PInt (row_id (table w ! i)) \<notin> PInt ` row_id ` set (unanalysed w)
         \<longrightarrow> table w' ! i = table w ! i) \<and>
    (distinct (map row_id (table w)) \<longrightarrow>
       (\<forall>i<length (table w). competitor_strength (table w ! i) \<noteq> None
          \<longrightarrow> table w' ! i = table w ! i))"
proof -
  have w': "w' = snd (update_all_competitors w)" using assms by simp
  have ev: "evolves (PInt ` row_id ` set (unanalysed w)) w w'"
    unfolding w' by (rule update_all_evolves)
  have a: "set (unanalysed w) = {r \<in> set (table w). competitor_strength r = None}"
    by (auto simp: unanalysed_def)
  have b: "\<exists>new. writes w' = writes w @ new \<and> fst ` set new \<subseteq> PInt ` row_id ` set (unanalysed w)"
    using ev unfolding evolves_def by blast
  have c: "llm_calls w' = llm_calls w \<or>
     llm_calls w' = llm_calls w @ map prompt_of_row (unanalysed w)"
    unfolding w' by (rule update_all_llm_calls)
  have d: "\<forall>i<length (table w).
       PInt (row_id (table w ! i)) \<notin> PInt ` row_id ` set (unanalysed w)
         \<longrightarrow> table w' ! i = table w ! i"
    using ev unfolding evolves_def by blast
  have e: "distinct (map row_id (table w)) \<longrightarrow>
       (\<forall>i<length (table w). competitor_strength (table w ! i) \<noteq> None
          \<longrightarrow> table w' ! i = table w ! i)"
  proof (intro impI allI)
    fix i
    assume dist: "distinct (map row_id (table w))" and i: "i < length (table w)"
      and an: "competitor_strength (table w ! i) \<noteq> None"
    have "PInt (row_id (table w ! i)) \<notin> PInt ` row_id ` set (unanalysed w)"
    proof
      assume "PInt (row_id (table w ! i)) \<in> PInt ` row_id ` set (unanalysed w)"
      then obtain r where r: "r \<in> set (table w)" "competitor_strength r = None"
          "row_id r = row_id (table w ! i)"
        using a by auto
      then obtain j where j: "j < length (table w)" "table w ! j = r"
        by (auto simp: in_set_conv_nth)
      have "map row_id (table w) ! j = map row_id (table w) ! i"
        using i j r(3) by simp
      then have "j = i"
        using dist i j(1) by (metis nth_eq_iff_index_eq length_map)
      with j(2) r(2) an show False by simp
    qed
    with d i show "table w' ! i = table w ! i" by blast
  qed
  from a b c d e show ?thesis by blast
qed

theorem update_all_targets_unanalysed_rows_witness:
  "distinct (map row_id (table one_failure)) \<and>
   competitor_strength (table one_failure ! 1) = Some ''Large base'' \<and>
   (\<exists>res w'. update_all_competitors one_failure = (res, w') \<and>
      table w' ! 1 = globex \<and>
      (\<exists>new. writes w' = writes one_failure @ new \<and> fst ` set new \<subseteq> {PInt 7, PInt 9}))"
proof -
  obtain res w' where run: "update_all_competitors one_failure = (res, w')"
    by (cases "update_all_competitors one_failure") blast
  have d: "distinct (map row_id (table one_failure))"
    by (simp add: one_failure_def test_world_def acme_def globex_def initech_def)
  have g: "table one_failure ! 1 = globex" "(1::nat) < length (table one_failure)"
    by (simp_all add: one_failure_def test_world_def)
  have st: "competitor_strength (table one_failure ! 1) = Some ''Large base''"
    by (simp add: one_failure_def test_world_def globex_def)
  have ids: "PInt ` row_id ` set (unanalysed one_failure) = {PInt 7, PInt 9}"
    by (simp add: unanalysed_one_failure acme_def initech_def)
  have "table w' ! 1 = globex"
    using update_all_targets_unanalysed_rows [OF run] d g st by auto
  moreover have "\<exists>new. writes w' = writes one_failure @ new \<and> fst ` set new \<subseteq> {PInt 7, PInt 9}"
    using update_all_targets_unanalysed_rows [OF run] ids by simp
  ultimately show ?thesis using run d st by blast
qed

text \<open>
  C9. A body of \<open>update_all_competitors\<close> with a count and a list has status success, its
  \<open>total_processed\<close> is the length of \<open>updated_competitors\<close>, and the ids of the list follow
  the order of the rows the query returned. When the query returns rows and every one of
  them fails (its LLM request fails, or every later round trip to the store fails), the
  endpoint still returns status success, with count 0 and an empty list.
\<close>

theorem update_all_summary_counts:
  "(fst (update_all_competitors w) = Inr (Summary s n upd) \<longrightarrow>
      s = ''success'' \<and> n = length upd \<and>
      subseq (map resp_id upd) (map row_id (unanalysed w))) \<and>
   (store_fault w (store_ops w) = None \<and> unanalysed w \<noteq> [] \<and>
    (\<forall>k<length (unanalysed w).
        isl (llm w (length (llm_calls w) + k) (prompt_of_row (unanalysed w ! k))) \<or>
        (\<forall>m>store_ops w. store_fault w m \<noteq> None))
      \<longrightarrow> fst (update_all_competitors w) = Inr (Summary ''success'' 0 []) \<and>
          http_status (fst (update_all_competitors w)) = 200)"
proof -
  have p1: "fst (update_all_competitors w) = Inr (Summary s n upd) \<longrightarrow>
      s = ''success'' \<and> n = length upd \<and>
      subseq (map resp_id upd) (map row_id (unanalysed w))"
    using update_all_summary_form by blast
  have p2: "store_fault w (store_ops w) = None \<and> unanalysed w \<noteq> [] \<and>
    (\<forall>k<length (unanalysed w).
        isl (llm w (length (llm_calls w) + k) (prompt_of_row (unanalysed w ! k))) \<or>
        (\<forall>m>store_ops w. store_fault w m \<noteq> None))
      \<longrightarrow> fst (update_all_competitors w) = Inr (Summary ''success'' 0 []) \<and>
          http_status (fst (update_all_competitors w)) = 200"
  proof
    assume a: "store_fault w (store_ops w) = None \<and> unanalysed w \<noteq> [] \<and>
      (\<forall>k<length (unanalysed w).
          isl (llm w (length (llm_calls w) + k) (prompt_of_row (unanalysed w ! k))) \<or>
          (\<forall>m>store_ops w. store_fault w m \<noteq> None))"
    have "\<forall>k<length (unanalysed w).
        isl (llm (loop_start w) (length (llm_calls (loop_start w)) + k)
               (prompt_of_row (unanalysed w ! k))) \<or>
        (\<forall>m\<ge>store_ops (loop_start w). store_fault (loop_start w) m \<noteq> None)"
      using a by (auto simp: Suc_le_eq)
    then obtain w' where
        "update_all_loop (map selected_columns (unanalysed w)) [] (loop_start w) = (Inr [], w')"
      using loop_all_fail [of "unanalysed w" "loop_start w" "[]"] by blast
    then have "update_all_competitors w =
        (Inr (Summary ''success'' (length ([]::CompetitorResponse list)) []), w')"
      using a by (intro update_all_loop_result) simp_all
    then show "fst (update_all_competitors w) = Inr (Summary ''success'' 0 []) \<and>
            http_status (fst (update_all_competitors w)) = 200"
      by simp
  qed
  from p1 p2 show ?thesis by blast
qed

theorem update_all_summary_counts_witness:
  "fst (update_all_competitors one_failure) =
     Inr (Summary ''success'' 1
       [CompetitorResponse 7 ''Acme'' (Some ''S'') (Some ''W'') (Some ''O'') (Some ''T'')]) \<and>
   (1::nat) = length [CompetitorResponse 7 ''Acme'' (Some ''S'') (Some ''W'') (Some ''O'') (Some ''T'')] \<and>
   subseq [7] (map row_id (unanalysed one_failure)) \<and>
   store_fault all_failures (store_ops all_failures) = None \<and>
   unanalysed all_failures = [acme, initech] \<and>
   isl (llm all_failures 0 (prompt_of_row acme)) \<and>
   isl (llm all_failures 1 (prompt_of_row initech)) \<and>
   fst (update_all_competitors all_failures) = Inr (Summary ''success'' 0 [])"
proof -
  let ?upd = "[CompetitorResponse 7 ''Acme'' (Some ''S'') (Some ''W'') (Some ''O'') (Some ''T'')]"
  have a: "''success'' = ''success'' \<and> (1::nat) = length ?upd \<and>
      subseq (map resp_id ?upd) (map row_id (unanalysed one_failure))"
    using update_all_summary_counts [of one_failure "''success''" 1 ?upd] one_failure_run
    by blast
  have h1: "store_fault all_failures (store_ops all_failures) = None"
    by (simp add: all_failures_def test_world_def)
  have h2: "unanalysed all_failures \<noteq> []" by (simp add: unanalysed_all_failures)
  have h3: "\<forall>k<length (unanalysed all_failures).
        isl (llm all_failures (length (llm_calls all_failures) + k)
               (prompt_of_row (unanalysed all_failures ! k))) \<or>
        (\<forall>m>store_ops all_failures. store_fault all_failures m \<noteq> None)"
    by (simp add: all_failures_def test_world_def)
  have b: "fst (update_all_competitors all_failures) = Inr (Summary ''success'' 0 [])"
    using update_all_summary_counts [of all_failures] h1 h2 h3 by blast
  have l: "isl (llm all_failures 0 (prompt_of_row acme)) \<and>
      isl (llm all_failures 1 (prompt_of_row initech))"
    by (simp add: all_failures_def test_world_def)
  show ?thesis
    using a b h1 l one_failure_run unanalysed_all_failures by simp
qed

subsection \<open>What the store writes touch\<close>

text \<open>
  C8. Whatever the updater or an endpoint does to the store keeps the table's rows in place
  with their key, name and descriptive texts, leaves untouched every row whose id is not the
  one the update is filtered by, and every update request sent carries the four output
  columns and nothing else (see \<open>evolves\<close>).
\<close>

theorem store_writes_touch_only_output_fields:
  "evolves {cid} w (snd (update_competitor_swot cid name existing_data w)) \<and>
   evolves {PInt i} w (snd (update_single_competitor i w)) \<and>
   evolves (PInt ` row_id ` {r \<in> set (table w). competitor_strength r = None}) w
     (snd (update_all_competitors w)) \<and>
   evolves {} w (snd (root w))"
proof -
  have "set (unanalysed w) = {r \<in> set (table w). competitor_strength r = None}"
    by (auto simp: unanalysed_def)
  then have "evolves (PInt ` row_id ` {r \<in> set (table w). competitor_strength r = None}) w
     (snd (update_all_competitors w))"
    using update_all_evolves [of w] by simp
  moreover have "evolves {} w (snd (root w))"
    by (simp add: root_def evolves_refl)
  ultimately show ?thesis
    using ucs_evolves update_single_evolves by blast
qed

theorem store_writes_touch_only_output_fields_witness:
  "evolves {PInt 7} one_failure
     (snd (update_competitor_swot (PInt 7) (PStr ''Acme'') (selected_columns acme) one_failure)) \<and>
   evolves {PInt 7} one_failure (snd (update_single_competitor 7 one_failure)) \<and>
   evolves {PInt 7, PInt 9} one_failure (snd (update_all_competitors one_failure)) \<and>
   evolves {} one_failure (snd (root one_failure)) \<and>
   table (snd (update_single_competitor 7 one_failure)) =
     [with_swot sample_swot acme, globex, initech] \<and>
   writes (snd (update_single_competitor 7 one_failure)) = [(PInt 7, swot_payload sample_swot)]"
proof -
  have ids: "PInt ` row_id ` {r \<in> set (table one_failure). competitor_strength r = None}
      = {PInt 7, PInt 9}"
  proof -
    have "{r \<in> set (table one_failure). competitor_strength r = None}
        = set (unanalysed one_failure)"
      by (auto simp: unanalysed_def)
    then show ?thesis
      by (simp add: unanalysed_one_failure acme_def initech_def)
  qed
  have run: "table (snd (update_single_competitor 7 one_failure)) =
       [with_swot sample_swot acme, globex, initech] \<and>
     writes (snd (update_single_competitor 7 one_failure)) = [(PInt 7, swot_payload sample_swot)]"
    by (simp add: update_single_competitor_def update_single_competitor_try_def
          select_eq_id_def update_competitor_swot_def update_competitor_swot_try_def
          get_swot_analysis_def store_update_swot make_response_all_columns Let_def
          one_failure_def test_world_def acme_def globex_def initech_def
          write_to_def logger_info_def logger_error_def)
  show ?thesis
    using store_writes_touch_only_output_fields
      [of "PInt 7" one_failure "PStr ''Acme''" "selected_columns acme" 7] ids run
    by simp
qed

end
